theory Spec2Isabelle
  imports Main "HOL-Library.Sublist"
begin

section \<open>The zone editor's fish-pool selector\<close>

text \<open>
  The zone manager script keeps, for every modal dialog (``container''), a set of selected
  fish ids in a WeakMap, and renders that selection into the dialog's DOM.  The model
  below follows the script function by function.

  \<^item> A fish id is an \<open>int\<close>: the script reads ids with \<open>parseInt\<close> from attributes it wrote
    itself from integer ids, so the attribute text and the number determine each other.
  \<^item> A JavaScript \<open>Set\<close> iterates in insertion order; it is modelled as the list of its
    elements in that order.
  \<^item> A container is identified by a natural number (the identity of the modal element).
  \<^item> Only the attributes and properties the selection code reads or writes are kept of
    each DOM element.
  \<^item> A \<open>data-value\<close> is the integer the attribute was written from; the script's arithmetic
    on such values is followed where it is exact, within the safe integers.
\<close>

subsection \<open>DOM elements\<close>

text \<open>A \<open>.fish-item\<close> element with its \<open>data-*\<close> attributes, its inline display style, its
  \<open>d-none\<close> class and the state of the checkbox it contains.\<close>

record fish_item =
  fishId :: int
  rarity :: nat
  data_value :: int
  data_name :: string
  display_none :: bool
  d_none :: bool
  checked :: bool

text \<open>A \<open>.rarity-select-all\<close> header checkbox (element id \<open>rarity-r\<close>).\<close>

record rarity_checkbox =
  rc_checked :: bool
  indeterminate :: bool

text \<open>
  What the total-value display shows.  The script's numbers are IEEE doubles; reading the
  decimal text of an integer and adding two integers are exact as long as the operands and
  the result are safe integers (below \<open>2\<^sup>5\<^sup>3\<close> in magnitude), and there the model follows the
  arithmetic: \<open>Exact n\<close>.  Once a value read or a running sum leaves the safe integers, the
  number shown is decided by double rounding (and, from \<open>10\<^sup>2\<^sup>1\<close> on, by the exponent notation
  of the attribute text), which the model does not follow: \<open>Inexact a vs\<close> records the last
  exact sum \<open>a\<close> and the values \<open>vs\<close> whose attributes were read after it, which determine the
  number shown.
\<close>

datatype shown_total = Exact int | Inexact int "int list"

text \<open>The part of a dialog's form that the selection component uses.\<close>

record dom =
  totalFishList :: "fish_item list"
  rarity_select_all :: "nat \<Rightarrow> rarity_checkbox option"
  selectedFishList :: "fish_item list"
  fishSearch :: string
  rarityFilter :: "nat option"
  totalFishCount :: nat
  selectedCount :: nat
  totalValue :: shown_total
  emptySelectedMessage_hidden :: bool
  specific_fish_ids_input :: string

type_synonym container = nat

text \<open>The script's state: the WeakMap \<open>containerToSelectedIds\<close> and the DOM of each
  container.\<close>

record world =
  containerToSelectedIds :: "container \<Rightarrow> int list option"
  doms :: "container \<Rightarrow> dom"

datatype list_ref = TotalFishList | SelectedFishList

subsection \<open>JavaScript built-ins used by the script\<close>

text \<open>\<open>Set.prototype.has\<close>, \<open>add\<close> and \<open>delete\<close> on the insertion-ordered element list.\<close>

definition Set_has :: "int list \<Rightarrow> int \<Rightarrow> bool" where
  "Set_has s x = (x \<in> set s)"

definition Set_add :: "int list \<Rightarrow> int \<Rightarrow> int list" where
  "Set_add s x = (if x \<in> set s then s else s @ [x])"

definition Set_delete :: "int list \<Rightarrow> int \<Rightarrow> int list" where
  "Set_delete s x = removeAll x s"

text \<open>The safe integers (\<open>Number.MAX_SAFE_INTEGER\<close> is \<open>2\<^sup>5\<^sup>3 - 1\<close>), and one step
  \<open>totalValue += parseInt(item.dataset.value)\<close> on the value an attribute was written from.\<close>

definition safe_integer :: "int \<Rightarrow> bool" where
  "safe_integer n = (- (2 ^ 53) < n \<and> n < 2 ^ 53)"

definition add_parsed :: "shown_total \<Rightarrow> int \<Rightarrow> shown_total" where
  "add_parsed t v =
     (case t of
        Exact a \<Rightarrow> if safe_integer v \<and> safe_integer (a + v) then Exact (a + v) else Inexact a [v]
      | Inexact a vs \<Rightarrow> Inexact a (vs @ [v]))"

text \<open>Number-to-string conversion of an integer: decimal digits, a minus sign when
  negative (what JavaScript prints for integers below \<open>10\<^sup>2\<^sup>1\<close> in magnitude, as ids are).\<close>

definition digit_char :: "nat \<Rightarrow> char" where
  "digit_char d = char_of (48 + d)"

fun digits :: "nat \<Rightarrow> string" where
  "digits n = (if n < 10 then [digit_char n] else digits (n div 10) @ [digit_char (n mod 10)])"

declare digits.simps [simp del]

definition js_toString :: "int \<Rightarrow> string" where
  "js_toString i = (if i < 0 then CHR ''-'' # digits (nat (- i)) else digits (nat i))"

text \<open>\<open>Array.prototype.join\<close>.\<close>

fun join :: "string \<Rightarrow> string list \<Rightarrow> string" where
  "join sep [] = []"
| "join sep [x] = x"
| "join sep (x # y # ys) = x @ sep @ join sep (y # ys)"

text \<open>\<open>String.prototype.toLowerCase\<close>; a \<open>char\<close> stands for one code unit, and the letters
  with a case are the ASCII ones.\<close>

definition toLowerCase_char :: "char \<Rightarrow> char" where
  "toLowerCase_char ch =
     (let n = (of_char ch :: nat) in if 65 \<le> n \<and> n \<le> 90 then char_of (n + 32) else ch)"

definition toLowerCase :: "string \<Rightarrow> string" where
  "toLowerCase s = map toLowerCase_char s"

text \<open>\<open>String.prototype.includes\<close>: the argument occurs as a contiguous substring.\<close>

definition String_includes :: "string \<Rightarrow> string \<Rightarrow> bool" where
  "String_includes s t = sublist t s"

text \<open>\<open>querySelector\<close> returns the first match; \<open>Element.remove\<close> on it deletes that one
  node from its parent.\<close>

fun remove_first :: "('a \<Rightarrow> bool) \<Rightarrow> 'a list \<Rightarrow> 'a list" where
  "remove_first P [] = []"
| "remove_first P (x # xs) = (if P x then xs else x # remove_first P xs)"

subsection \<open>Scoped selection state\<close>

text \<open>\<open>getSelectedSet\<close>: the container's set, created empty on first access.\<close>

definition getSelectedSet :: "container \<Rightarrow> world \<Rightarrow> int list \<times> world" where
  "getSelectedSet c w =
     (case containerToSelectedIds w c of
        None \<Rightarrow> ([], w\<lparr>containerToSelectedIds := (containerToSelectedIds w)(c := Some [])\<rparr>)
      | Some s \<Rightarrow> (s, w))"

text \<open>Mutating the Set object held for a container, and writing to its DOM.\<close>

definition store_set :: "container \<Rightarrow> int list \<Rightarrow> world \<Rightarrow> world" where
  "store_set c s w = w\<lparr>containerToSelectedIds := (containerToSelectedIds w)(c := Some s)\<rparr>"

definition store_dom :: "container \<Rightarrow> dom \<Rightarrow> world \<Rightarrow> world" where
  "store_dom c d w = w\<lparr>doms := (doms w)(c := d)\<rparr>"

subsection \<open>Filtering the candidate list\<close>

text \<open>The visibility test of \<open>filterFishOptions\<close> for one item.\<close>

definition isVisible :: "string \<Rightarrow> nat option \<Rightarrow> int list \<Rightarrow> fish_item \<Rightarrow> bool" where
  "isVisible searchTerm rar selectedSet item =
     ((String_includes (toLowerCase (data_name item)) searchTerm \<or> searchTerm = []) \<and>
      (Some (rarity item) = rar \<or> rar = None) \<and>
      \<not> Set_has selectedSet (fishId item))"

text \<open>The \<open>forEach\<close> of \<open>filterFishOptions\<close>: sets each item's display and counts the visible
  ones.  The listener closes over the Set that \<open>setupFishSelection\<close> obtained from
  \<open>getSelectedSet\<close>; the WeakMap never replaces a container's Set, so it is the container's
  set whenever the listener runs.\<close>

fun filter_loop :: "(fish_item \<Rightarrow> bool) \<Rightarrow> fish_item list \<Rightarrow> nat \<Rightarrow> fish_item list \<times> nat" where
  "filter_loop vis [] visibleCount = ([], visibleCount)"
| "filter_loop vis (item # items) visibleCount =
     (let v = vis item;
          (items', n) = filter_loop vis items (if v then Suc visibleCount else visibleCount)
      in (item\<lparr>display_none := \<not> v\<rparr> # items', n))"

definition filterFishOptions :: "container \<Rightarrow> world \<Rightarrow> world" where
  "filterFishOptions c w =
     (let d = doms w c;
          searchTerm = toLowerCase (fishSearch d);
          rar = rarityFilter d;
          selectedSet = fst (getSelectedSet c w);
          (items, visibleCount) = filter_loop (isVisible searchTerm rar selectedSet) (totalFishList d) 0
      in store_dom c (d\<lparr>totalFishList := items, totalFishCount := visibleCount\<rparr>) w)"

subsection \<open>The rarity header checkbox\<close>

definition updateRarityCheckboxState ::
    "list_ref option \<Rightarrow> nat option \<Rightarrow> container \<Rightarrow> world \<Rightarrow> world" where
  "updateRarityCheckboxState list rar c w =
     (case (list, rar) of
        (Some _, Some r) \<Rightarrow>
          (let d = doms w c in
           case rarity_select_all d r of
             None \<Rightarrow> w
           | Some rarityCheckbox \<Rightarrow>
               (let items = filter (\<lambda>it. rarity it = r \<and> \<not> display_none it) (totalFishList d);
                    checkedItems = filter checked items;
                    rarityCheckbox' =
                      (if length items > 0
                       then rarityCheckbox\<lparr>rc_checked := (length items = length checkedItems),
                              indeterminate := (length checkedItems > 0 \<and> length checkedItems < length items)\<rparr>
                       else rarityCheckbox\<lparr>rc_checked := False, indeterminate := False\<rparr>)
                in store_dom c (d\<lparr>rarity_select_all := (rarity_select_all d)(r := Some rarityCheckbox')\<rparr>) w))
      | _ \<Rightarrow> w)"

text \<open>The item a click was on is given by the list it is in and its position there.\<close>

definition list_of :: "list_ref \<Rightarrow> dom \<Rightarrow> fish_item list" where
  "list_of lr d = (case lr of TotalFishList \<Rightarrow> totalFishList d | SelectedFishList \<Rightarrow> selectedFishList d)"

definition set_list :: "list_ref \<Rightarrow> fish_item list \<Rightarrow> dom \<Rightarrow> dom" where
  "set_list lr xs d =
     (case lr of TotalFishList \<Rightarrow> d\<lparr>totalFishList := xs\<rparr> | SelectedFishList \<Rightarrow> d\<lparr>selectedFishList := xs\<rparr>)"

definition toggleFishSelection :: "list_ref \<Rightarrow> nat \<Rightarrow> container \<Rightarrow> bool \<Rightarrow> world \<Rightarrow> world" where
  "toggleFishSelection lr i c targetIsCheckbox w =
     (let d = doms w c; xs = list_of lr d in
      if i < length xs then
        (let item = xs ! i;
             w1 = (if \<not> targetIsCheckbox
                   then store_dom c (set_list lr (xs[i := item\<lparr>checked := \<not> checked item\<rparr>]) d) w
                   else w)
         in updateRarityCheckboxState (Some lr) (Some (rarity item)) c w1)
      else w)"

text \<open>The \<open>change\<close> listener of a header checkbox: the browser has already flipped the box
  (which also clears \<open>indeterminate\<close>); the listener copies the new state to the visible items
  of that rarity and recomputes the header.\<close>

definition rarity_select_all_change :: "nat \<Rightarrow> container \<Rightarrow> world \<Rightarrow> world" where
  "rarity_select_all_change r c w =
     (let d = doms w c in
      case rarity_select_all d r of
        None \<Rightarrow> w
      | Some target \<Rightarrow>
          (let target' = target\<lparr>rc_checked := \<not> rc_checked target, indeterminate := False\<rparr>;
               items = map (\<lambda>item. if rarity item = r \<and> \<not> display_none item
                                    then item\<lparr>checked := rc_checked target'\<rparr> else item)
                           (totalFishList d);
               w1 = store_dom c (d\<lparr>rarity_select_all := (rarity_select_all d)(r := Some target'),
                                   totalFishList := items\<rparr>) w
           in updateRarityCheckboxState (Some TotalFishList) (Some r) c w1))"

subsection \<open>Adding, removing, statistics\<close>

text \<open>The node \<open>_addFishToSelected_internal\<close> builds from the candidate item's data set.\<close>

definition new_selected_item :: "fish_item \<Rightarrow> fish_item" where
  "new_selected_item totalItem =
     \<lparr>fishId = fishId totalItem, rarity = rarity totalItem, data_value = data_value totalItem,
      data_name = data_name totalItem, display_none = False, d_none = False, checked = False\<rparr>"

definition addFishToSelected_internal :: "int \<Rightarrow> container \<Rightarrow> world \<Rightarrow> world" where
  "addFishToSelected_internal fid c w =
     (let (selectedSet, w1) = getSelectedSet c w in
      if Set_has selectedSet fid then w1
      else
        (let w2 = store_set c (Set_add selectedSet fid) w1;
             d = doms w2 c
         in case find (\<lambda>it. fishId it = fid) (totalFishList d) of
              None \<Rightarrow> w2
            | Some totalItem \<Rightarrow>
                store_dom c (d\<lparr>selectedFishList := selectedFishList d @ [new_selected_item totalItem]\<rparr>) w2))"

definition updateSelectedStats :: "container \<Rightarrow> world \<Rightarrow> world" where
  "updateSelectedStats c w =
     (let (selectedSet, w1) = getSelectedSet c w;
          d = doms w1 c;
          count = length selectedSet;
          total = foldl (\<lambda>acc item. add_parsed acc (data_value item)) (Exact 0) (selectedFishList d);
          d1 = d\<lparr>selectedCount := count, totalValue := total,
                 emptySelectedMessage_hidden := (count > 0),
                 specific_fish_ids_input := join '','' (map js_toString selectedSet)\<rparr>;
          d2 = d1\<lparr>selectedFishList :=
                    map (\<lambda>el. el\<lparr>d_none := False, display_none := False\<rparr>) (selectedFishList d1)\<rparr>;
          visibleCount = foldl (\<lambda>n item. if \<not> display_none item then Suc n else n) 0 (totalFishList d2)
      in store_dom c (d2\<lparr>totalFishCount := visibleCount\<rparr>) w1)"

text \<open>Dispatching \<open>keyup\<close> on the search box runs the listener \<open>setupFishSelection\<close>
  registered there, which is \<open>filterFishOptions\<close>.\<close>

definition addFishToSelected :: "int \<Rightarrow> container \<Rightarrow> world \<Rightarrow> world" where
  "addFishToSelected fid c w =
     filterFishOptions c (updateSelectedStats c (addFishToSelected_internal fid c w))"

definition removeFishFromSelected :: "int \<Rightarrow> container \<Rightarrow> world \<Rightarrow> world" where
  "removeFishFromSelected fid c w =
     (let (selectedSet, w1) = getSelectedSet c w in
      if \<not> Set_has selectedSet fid then w1
      else
        (let w2 = store_set c (Set_delete selectedSet fid) w1;
             d = doms w2 c;
             w3 = store_dom c (d\<lparr>selectedFishList :=
                                   remove_first (\<lambda>it. fishId it = fid) (selectedFishList d)\<rparr>) w2
         in filterFishOptions c (updateSelectedStats c w3)))"

definition clearAllSelected :: "container \<Rightarrow> world \<Rightarrow> world" where
  "clearAllSelected c w =
     (let (selectedSet, w1) = getSelectedSet c w;
          ids = selectedSet
      in foldl (\<lambda>w' fid. removeFishFromSelected fid c w') w1 ids)"

definition initializeSelectedFish :: "int list \<Rightarrow> container \<Rightarrow> world \<Rightarrow> world" where
  "initializeSelectedFish ids c w =
     (let (selectedSet, w1) = getSelectedSet c w;
          w2 = store_set c [] w1;
          d = doms w2 c;
          d1 = d\<lparr>selectedFishList := [], emptySelectedMessage_hidden := False\<rparr>;
          d2 = d1\<lparr>totalFishList :=
                    map (\<lambda>item. item\<lparr>display_none := False, checked := False\<rparr>) (totalFishList d1)\<rparr>;
          d3 = d2\<lparr>rarity_select_all :=
                    (\<lambda>r. map_option (\<lambda>cb. cb\<lparr>rc_checked := False, indeterminate := False\<rparr>)
                                     (rarity_select_all d2 r))\<rparr>;
          w3 = store_dom c d3 w2;
          w4 = foldl (\<lambda>w' fid. addFishToSelected_internal fid c w') w3 ids
      in filterFishOptions c (updateSelectedStats c w4))"

subsection \<open>Rendering the form and opening the dialog\<close>

text \<open>An entry of \<open>allFishData\<close>.\<close>

record fish =
  fish_id :: int
  fish_name :: string
  fish_rarity :: nat
  base_value :: int

definition total_item :: "fish \<Rightarrow> fish_item" where
  "total_item f =
     \<lparr>fishId = fish_id f, rarity = fish_rarity f, data_value = base_value f,
      data_name = fish_name f, display_none = False, d_none = False, checked = False\<rparr>"

text \<open>The selection component of \<open>renderForm\<close>: candidates grouped by rarity 1 to 10, a header
  checkbox for each rarity that has fish, an empty selected list, empty inputs.\<close>

definition renderForm :: "fish list \<Rightarrow> dom" where
  "renderForm allFishData =
     \<lparr>totalFishList =
        concat (map (\<lambda>r. map total_item (filter (\<lambda>f. fish_rarity f = r) allFishData)) [1..<11]),
      rarity_select_all =
        (\<lambda>r. if 1 \<le> r \<and> r \<le> 10 \<and> filter (\<lambda>f. fish_rarity f = r) allFishData \<noteq> []
              then Some \<lparr>rc_checked = False, indeterminate = False\<rparr> else None),
      selectedFishList = [],
      fishSearch = [],
      rarityFilter = None,
      totalFishCount = 0,
      selectedCount = 0,
      totalValue = Exact 0,
      emptySelectedMessage_hidden = False,
      specific_fish_ids_input = []\<rparr>"

text \<open>\<open>setupFishSelection\<close> takes the container's set, registers the listeners and runs the
  filter once; the \<open>show.bs.modal\<close> listener renders the form and calls it.\<close>

definition setupFishSelection :: "container \<Rightarrow> world \<Rightarrow> world" where
  "setupFishSelection c w = filterFishOptions c (snd (getSelectedSet c w))"

definition show_bs_modal :: "fish list \<Rightarrow> container \<Rightarrow> world \<Rightarrow> world" where
  "show_bs_modal allFishData c w = setupFishSelection c (store_dom c (renderForm allFishData) w)"

text \<open>The page after loading: no set has been created yet.\<close>

definition page_loaded :: "(container \<Rightarrow> dom) \<Rightarrow> world" where
  "page_loaded ds = \<lparr>containerToSelectedIds = (\<lambda>c. None), doms = ds\<rparr>"

subsection \<open>Events on a dialog\<close>

text \<open>
  Calls of the four selection operations with any argument, and the listeners
  \<open>setupFishSelection\<close> registers: typing in the search box (the value changes, \<open>keyup\<close> runs
  the filter), choosing a rarity filter, a click on a row (\<open>toggleFishSelection\<close>), a click
  on an item's own checkbox (propagation is stopped, so only the box flips), a click on a
  header checkbox, and the add and remove buttons, which walk the checked boxes found when
  the click arrives.
\<close>

datatype event =
    Add int
  | Remove int
  | ClearAll
  | Initialize "int list"
  | SetSearchValue string
  | Keyup
  | ChangeRarityFilter "nat option"
  | ToggleItem list_ref nat bool
  | ClickCheckbox list_ref nat
  | ChangeHeader nat
  | AddSelectedBtn
  | RemoveSelectedBtn

definition click_checkbox :: "list_ref \<Rightarrow> nat \<Rightarrow> container \<Rightarrow> world \<Rightarrow> world" where
  "click_checkbox lr i c w =
     (let d = doms w c; xs = list_of lr d in
      if i < length xs
      then store_dom c (set_list lr (xs[i := (xs ! i)\<lparr>checked := \<not> checked (xs ! i)\<rparr>]) d) w
      else w)"

definition addSelectedBtn_click :: "container \<Rightarrow> world \<Rightarrow> world" where
  "addSelectedBtn_click c w =
     foldl (\<lambda>w' cb. addFishToSelected (fishId cb) c w') w (filter checked (totalFishList (doms w c)))"

definition removeSelectedBtn_click :: "container \<Rightarrow> world \<Rightarrow> world" where
  "removeSelectedBtn_click c w =
     foldl (\<lambda>w' cb. removeFishFromSelected (fishId cb) c w') w
       (filter checked (selectedFishList (doms w c)))"

fun step :: "container \<Rightarrow> event \<Rightarrow> world \<Rightarrow> world" where
  "step c (Add fid) w = addFishToSelected fid c w"
| "step c (Remove fid) w = removeFishFromSelected fid c w"
| "step c ClearAll w = clearAllSelected c w"
| "step c (Initialize ids) w = initializeSelectedFish ids c w"
| "step c (SetSearchValue s) w = store_dom c ((doms w c)\<lparr>fishSearch := s\<rparr>) w"
| "step c Keyup w = filterFishOptions c w"
| "step c (ChangeRarityFilter r) w = filterFishOptions c (store_dom c ((doms w c)\<lparr>rarityFilter := r\<rparr>) w)"
| "step c (ToggleItem lr i b) w = toggleFishSelection lr i c b w"
| "step c (ClickCheckbox lr i) w = click_checkbox lr i c w"
| "step c (ChangeHeader r) w = rarity_select_all_change r c w"
| "step c AddSelectedBtn w = addSelectedBtn_click c w"
| "step c RemoveSelectedBtn w = removeSelectedBtn_click c w"

text \<open>A run: events arrive one at a time, each on some container.\<close>

fun run :: "(container \<times> event) list \<Rightarrow> world \<Rightarrow> world" where
  "run [] w = w"
| "run ((c, e) # es) w = run es (step c e w)"

subsection \<open>What is observed of a dialog\<close>

text \<open>The set a container has: what \<open>getSelectedSet\<close> returns for it.\<close>

definition selected :: "world \<Rightarrow> container \<Rightarrow> int list" where
  "selected w c = fst (getSelectedSet c w)"

text \<open>The data attributes of an item, and the candidate item a fish id has in the total
  list (the first one carrying that id), if any.\<close>

definition data_of :: "fish_item \<Rightarrow> int \<times> nat \<times> int \<times> string" where
  "data_of it = (fishId it, rarity it, data_value it, data_name it)"

definition candidate :: "fish_item list \<Rightarrow> int \<Rightarrow> (int \<times> nat \<times> int \<times> string) option" where
  "candidate cands fid = map_option data_of (find (\<lambda>it. fishId it = fid) cands)"

text \<open>The fish of \<open>allFishData\<close> that carries a given id, and the base values of the selected
  fish ids: of every selected id that is the id of a fish.\<close>

definition fish_with_id :: "fish list \<Rightarrow> int \<Rightarrow> fish option" where
  "fish_with_id allFishData fid = find (\<lambda>f. fish_id f = fid) allFishData"

definition base_values_of_selected :: "fish list \<Rightarrow> int list \<Rightarrow> int list" where
  "base_values_of_selected allFishData sel =
     List.map_filter (\<lambda>fid. map_option base_value (fish_with_id allFishData fid)) sel"

text \<open>The fish \<open>renderForm\<close> lists as candidates are those with a rarity from 1 to 10; the base
  values of the selected fish that are listed.\<close>

definition listed :: "fish \<Rightarrow> bool" where
  "listed f = (1 \<le> fish_rarity f \<and> fish_rarity f \<le> 10)"

definition listed_base_value :: "fish list \<Rightarrow> int \<Rightarrow> int option" where
  "listed_base_value allFishData fid =
     (case fish_with_id allFishData fid of
        None \<Rightarrow> None
      | Some f \<Rightarrow> if listed f then Some (base_value f) else None)"

definition listed_base_values :: "fish list \<Rightarrow> int list \<Rightarrow> int list" where
  "listed_base_values allFishData sel = List.map_filter (listed_base_value allFishData) sel"

text \<open>The total the display shows for the values read in order, starting from 0; the
  value lists on which the arithmetic stays within the safe integers.\<close>

definition total_of :: "int list \<Rightarrow> shown_total" where
  "total_of vs = foldl add_parsed (Exact 0) vs"

fun sums_safely_from :: "int \<Rightarrow> int list \<Rightarrow> bool" where
  "sums_safely_from a [] = True"
| "sums_safely_from a (v # vs) =
     (safe_integer v \<and> safe_integer (a + v) \<and> sums_safely_from (a + v) vs)"

definition sums_safely :: "int list \<Rightarrow> bool" where
  "sums_safely vs = sums_safely_from 0 vs"

text \<open>Reading the hidden input back as the list of ids it serializes: split at the commas,
  read each piece as a decimal integer; the empty string is the empty list.\<close>

fun split_on :: "char \<Rightarrow> string \<Rightarrow> string list" where
  "split_on sep [] = [[]]"
| "split_on sep (ch # s) =
     (if ch = sep then [] # split_on sep s
      else (case split_on sep s of [] \<Rightarrow> [[ch]] | p # ps \<Rightarrow> (ch # p) # ps))"

definition digit_val :: "char \<Rightarrow> nat" where
  "digit_val ch = of_char ch - 48"

definition read_digits :: "string \<Rightarrow> nat" where
  "read_digits s = foldl (\<lambda>n ch. 10 * n + digit_val ch) 0 s"

definition read_int :: "string \<Rightarrow> int" where
  "read_int s = (case s of [] \<Rightarrow> 0
                 | ch # ds \<Rightarrow> if ch = CHR ''-'' then - int (read_digits ds) else int (read_digits s))"

definition ids_of_serialization :: "string \<Rightarrow> int list" where
  "ids_of_serialization s = (if s = [] then [] else map read_int (split_on CHR '','' s))"

text \<open>The consistency a dialog has once it has been initialized: the set holds each id
  once, the selected list shows, in the set's order, the ids that have a candidate, with
  the candidate's data; no selected item is hidden; the counters and the hidden input say
  what the set and the list hold.\<close>

definition rendered_ok :: "container \<Rightarrow> world \<Rightarrow> bool" where
  "rendered_ok c w =
     (distinct (selected w c) \<and>
      map data_of (selectedFishList (doms w c)) =
        List.map_filter (candidate (totalFishList (doms w c))) (selected w c))"

definition shown_ok :: "container \<Rightarrow> world \<Rightarrow> bool" where
  "shown_ok c w = list_all (\<lambda>it. \<not> display_none it \<and> \<not> d_none it) (selectedFishList (doms w c))"

definition stats_ok :: "container \<Rightarrow> world \<Rightarrow> bool" where
  "stats_ok c w =
     (selectedCount (doms w c) = length (selected w c) \<and>
      totalValue (doms w c) = total_of (map data_value (selectedFishList (doms w c))) \<and>
      specific_fish_ids_input (doms w c) = join '','' (map js_toString (selected w c)))"

definition consistent :: "container \<Rightarrow> world \<Rightarrow> bool" where
  "consistent c w = (rendered_ok c w \<and> shown_ok c w \<and> stats_ok c w)"

text \<open>
  The states a dialog is used in.  Its selection is set up by \<open>initializeSelectedFish\<close>, which
  the \<open>shown.bs.modal\<close> listener runs on every opening; before that, on the first opening, the
  form has been rendered and the container has no set yet.  From then on events arrive, on
  this container or on others, and whatever else happens to other containers leaves this
  one's set and DOM alone.  (A form rendered anew while the set still holds the previous
  selection is not among these states until it is initialized.)
\<close>

inductive reachable :: "container \<Rightarrow> world \<Rightarrow> bool" for c :: container where
  initialized: "reachable c (initializeSelectedFish ids c w)"
| first_shown: "containerToSelectedIds w c = None \<Longrightarrow> reachable c (show_bs_modal allFishData c w)"
| event: "reachable c w \<Longrightarrow> reachable c (step c' e w)"
| elsewhere: "reachable c w \<Longrightarrow> containerToSelectedIds w' c = containerToSelectedIds w c \<Longrightarrow>
              doms w' c = doms w c \<Longrightarrow> reachable c w'"

text \<open>What \<open>filterFishOptions\<close> and \<open>updateSelectedStats\<close> make of a container's DOM, given its
  set, with the loops written as list functions.\<close>

definition filtered :: "int list \<Rightarrow> dom \<Rightarrow> dom" where
  "filtered s d =
     d\<lparr>totalFishList :=
         map (\<lambda>it. it\<lparr>display_none := \<not> isVisible (toLowerCase (fishSearch d)) (rarityFilter d) s it\<rparr>)
             (totalFishList d),
       totalFishCount :=
         length (filter (isVisible (toLowerCase (fishSearch d)) (rarityFilter d) s) (totalFishList d))\<rparr>"

definition with_stats :: "int list \<Rightarrow> dom \<Rightarrow> dom" where
  "with_stats s d =
     d\<lparr>selectedCount := length s,
       totalValue := total_of (map data_value (selectedFishList d)),
       emptySelectedMessage_hidden := (s \<noteq> []),
       specific_fish_ids_input := join '','' (map js_toString s),
       selectedFishList := map (\<lambda>el. el\<lparr>d_none := False, display_none := False\<rparr>) (selectedFishList d),
       totalFishCount := length (filter (\<lambda>it. \<not> display_none it) (totalFishList d))\<rparr>"

text \<open>The five things a selection shows of itself: the set, the rendered selected list,
  the displayed count, the displayed total value, the hidden input.\<close>

definition observed ::
    "world \<Rightarrow> container \<Rightarrow> int list \<times> fish_item list \<times> nat \<times> shown_total \<times> string" where
  "observed w c =
     (selected w c, selectedFishList (doms w c), selectedCount (doms w c), totalValue (doms w c),
      specific_fish_ids_input (doms w c))"

text \<open>The ids rendered in the selected list, and the ids that have a candidate item.\<close>

definition rendered_ids :: "world \<Rightarrow> container \<Rightarrow> int list" where
  "rendered_ids w c = map fishId (selectedFishList (doms w c))"

definition candidate_ids :: "world \<Rightarrow> container \<Rightarrow> int list" where
  "candidate_ids w c = map fishId (totalFishList (doms w c))"

definition has_candidate :: "world \<Rightarrow> container \<Rightarrow> int \<Rightarrow> bool" where
  "has_candidate w c fid = (fid \<in> set (candidate_ids w c))"

text \<open>The data attributes of the candidate list, in order: what \<open>renderForm\<close> wrote from
  \<open>allFishData\<close>.\<close>

definition catalog :: "world \<Rightarrow> container \<Rightarrow> (int \<times> nat \<times> int \<times> string) list" where
  "catalog w c = map data_of (totalFishList (doms w c))"

text \<open>The dialog's candidate list is the one \<open>renderForm\<close> writes from \<open>allFishData\<close>.\<close>

definition rendered_from :: "fish list \<Rightarrow> world \<Rightarrow> container \<Rightarrow> bool" where
  "rendered_from allFishData w c =
     (catalog w c = map data_of (totalFishList (renderForm allFishData)))"

text \<open>The visible candidates of a rarity, and the tri-state reading of a header: checked
  when there are visible candidates of its rarity and all are checked, indeterminate when
  some are checked and some are not.\<close>

definition visible_of_rarity :: "nat \<Rightarrow> dom \<Rightarrow> fish_item list" where
  "visible_of_rarity r d = filter (\<lambda>it. rarity it = r \<and> \<not> display_none it) (totalFishList d)"

definition not_checked :: "fish_item \<Rightarrow> bool" where
  "not_checked it = (\<not> checked it)"

definition header_reflects :: "nat \<Rightarrow> dom \<Rightarrow> bool" where
  "header_reflects r d =
     (case rarity_select_all d r of
        None \<Rightarrow> False
      | Some cb \<Rightarrow>
          (rc_checked cb = (visible_of_rarity r d \<noteq> [] \<and> list_all checked (visible_of_rarity r d))) \<and>
          (indeterminate cb =
             (list_ex checked (visible_of_rarity r d) \<and> list_ex not_checked (visible_of_rarity r d))))"

text \<open>The visibility the filter gives an item of the candidate list.\<close>

definition shown_by_filter :: "world \<Rightarrow> container \<Rightarrow> fish_item \<Rightarrow> bool" where
  "shown_by_filter w c it =
     ((String_includes (toLowerCase (data_name it)) (toLowerCase (fishSearch (doms w c))) \<or>
       fishSearch (doms w c) = []) \<and>
      (rarityFilter (doms w c) = Some (rarity it) \<or> rarityFilter (doms w c) = None) \<and>
      fishId it \<notin> set (selected w c))"

subsection \<open>Example dialogs\<close>

text \<open>A catalogue of three fish, and the form \<open>show.bs.modal\<close> renders from it in a
  container that has no set yet.\<close>

definition example_fish :: "fish list" where
  "example_fish =
     [\<lparr>fish_id = 1, fish_name = ''Salmon'', fish_rarity = 2, base_value = 30\<rparr>,
      \<lparr>fish_id = 2, fish_name = ''carp'', fish_rarity = 1, base_value = 5\<rparr>,
      \<lparr>fish_id = 3, fish_name = ''Eel'', fish_rarity = 2, base_value = 12\<rparr>]"

text \<open>A catalogue that holds a fish of rarity 11.\<close>

definition deep_fish :: "fish list" where
  "deep_fish =
     [\<lparr>fish_id = 1, fish_name = ''Kraken'', fish_rarity = 11, base_value = 100\<rparr>,
      \<lparr>fish_id = 2, fish_name = ''carp'', fish_rarity = 1, base_value = 5\<rparr>]"

definition example_dom :: dom where
  "example_dom =
     \<lparr>totalFishList =
        [\<lparr>fishId = 2, rarity = 1, data_value = 5, data_name = ''carp'',
          display_none = False, d_none = False, checked = False\<rparr>,
         \<lparr>fishId = 1, rarity = 2, data_value = 30, data_name = ''Salmon'',
          display_none = False, d_none = False, checked = False\<rparr>,
         \<lparr>fishId = 3, rarity = 2, data_value = 12, data_name = ''Eel'',
          display_none = False, d_none = False, checked = False\<rparr>],
      rarity_select_all =
        (\<lambda>r. if r = 1 \<or> r = 2 then Some \<lparr>rc_checked = False, indeterminate = False\<rparr> else None),
      selectedFishList = [],
      fishSearch = [],
      rarityFilter = None,
      totalFishCount = 3,
      selectedCount = 0,
      totalValue = Exact 0,
      emptySelectedMessage_hidden = False,
      specific_fish_ids_input = []\<rparr>"

text \<open>Two dialogs showing the same three candidates, nothing selected, no set created.\<close>

definition example_world :: world where
  "example_world = \<lparr>containerToSelectedIds = (\<lambda>c. None), doms = (\<lambda>c. example_dom)\<rparr>"

text \<open>The same with \<open>sal\<close> typed into the search box of every dialog.\<close>

definition searching_world :: world where
  "searching_world =
     \<lparr>containerToSelectedIds = (\<lambda>c. None), doms = (\<lambda>c. example_dom\<lparr>fishSearch := ''sal''\<rparr>)\<rparr>"

section \<open>Properties of the model\<close>

subsection \<open>The store\<close>

lemma selected_alt:
  "selected w c = (case containerToSelectedIds w c of None \<Rightarrow> [] | Some s \<Rightarrow> s)"
  by (simp add: selected_def getSelectedSet_def split: option.splits)

lemma fst_getSelectedSet [simp]: "fst (getSelectedSet c w) = selected w c"
  by (simp add: selected_def)

lemma map_snd_getSelectedSet:
  "containerToSelectedIds (snd (getSelectedSet c w)) c' =
     (if c' = c then Some (selected w c) else containerToSelectedIds w c')"
  by (simp add: selected_alt getSelectedSet_def split: option.splits)

lemma doms_snd_getSelectedSet [simp]: "doms (snd (getSelectedSet c w)) = doms w"
  by (simp add: getSelectedSet_def split: option.splits)

lemma selected_snd_getSelectedSet [simp]: "selected (snd (getSelectedSet c w)) c' = selected w c'"
  by (simp add: selected_alt map_snd_getSelectedSet split: option.splits)

lemma map_store_set [simp]:
  "containerToSelectedIds (store_set c s w) c' = (if c' = c then Some s else containerToSelectedIds w c')"
  by (simp add: store_set_def)

lemma doms_store_set [simp]: "doms (store_set c s w) = doms w"
  by (simp add: store_set_def)

lemma selected_store_set [simp]: "selected (store_set c s w) c' = (if c' = c then s else selected w c')"
  by (simp add: selected_alt)

lemma map_store_dom [simp]: "containerToSelectedIds (store_dom c d w) = containerToSelectedIds w"
  by (simp add: store_dom_def)

lemma doms_store_dom [simp]: "doms (store_dom c d w) c' = (if c' = c then d else doms w c')"
  by (simp add: store_dom_def)

lemma selected_store_dom [simp]: "selected (store_dom c d w) c' = selected w c'"
  by (simp add: selected_alt)

lemma Set_add_set [simp]: "set (Set_add s x) = insert x (set s)"
  by (auto simp: Set_add_def)

lemma Set_add_distinct: "distinct s \<Longrightarrow> distinct (Set_add s x)"
  by (simp add: Set_add_def)

lemma Set_add_member: "x \<in> set s \<Longrightarrow> Set_add s x = s"
  by (simp add: Set_add_def)

subsection \<open>Loops as list functions\<close>

lemma filter_loop_eq:
  "filter_loop vis items n =
     (map (\<lambda>it. it\<lparr>display_none := \<not> vis it\<rparr>) items, n + length (filter vis items))"
  by (induction items arbitrary: n) (simp_all add: Let_def)

lemma foldl_add_parsed:
  "foldl (\<lambda>acc item. add_parsed acc (data_value item)) a xs = foldl add_parsed a (map data_value xs)"
  by (induction xs arbitrary: a) simp_all

lemma total_from_safe:
  "sums_safely_from a vs \<Longrightarrow> foldl add_parsed (Exact a) vs = Exact (a + sum_list vs)"
  by (induction vs arbitrary: a) (simp_all add: add_parsed_def add.assoc)

lemma total_of_Nil [simp]: "total_of [] = Exact 0"
  by (simp add: total_of_def)

lemma total_of_safe: "sums_safely vs \<Longrightarrow> total_of vs = Exact (sum_list vs)"
  using total_from_safe [of 0 vs] by (simp add: total_of_def sums_safely_def)

lemma foldl_count_visible:
  "foldl (\<lambda>n item. if \<not> display_none item then Suc n else n) a xs =
     a + length (filter (\<lambda>it. \<not> display_none it) xs)"
  by (induction xs arbitrary: a) simp_all

subsection \<open>Filter and statistics in closed form\<close>

lemma filterFishOptions_eq:
  "filterFishOptions c w = store_dom c (filtered (selected w c) (doms w c)) w"
  by (simp add: filterFishOptions_def filtered_def Let_def filter_loop_eq)

lemma updateSelectedStats_eq:
  "updateSelectedStats c w = store_dom c (with_stats (selected w c) (doms w c)) (snd (getSelectedSet c w))"
  by (simp add: updateSelectedStats_def with_stats_def Let_def split_beta foldl_add_parsed
      total_of_def foldl_count_visible)

subsection \<open>Frame: other containers\<close>

lemma frame_getSelectedSet:
  "c' \<noteq> c \<Longrightarrow> containerToSelectedIds (snd (getSelectedSet c w)) c' = containerToSelectedIds w c'"
  by (simp add: map_snd_getSelectedSet)

lemma frame_filterFishOptions:
  "c' \<noteq> c \<Longrightarrow> containerToSelectedIds (filterFishOptions c w) c' = containerToSelectedIds w c'
     \<and> doms (filterFishOptions c w) c' = doms w c'"
  by (simp add: filterFishOptions_eq)

lemma frame_updateSelectedStats:
  "c' \<noteq> c \<Longrightarrow> containerToSelectedIds (updateSelectedStats c w) c' = containerToSelectedIds w c'
     \<and> doms (updateSelectedStats c w) c' = doms w c'"
  by (simp add: updateSelectedStats_eq map_snd_getSelectedSet)

lemma frame_internal:
  "c' \<noteq> c \<Longrightarrow> containerToSelectedIds (addFishToSelected_internal fid c w) c' = containerToSelectedIds w c'
     \<and> doms (addFishToSelected_internal fid c w) c' = doms w c'"
  by (simp add: addFishToSelected_internal_def split_beta Let_def map_snd_getSelectedSet
      split: option.splits)

lemma frame_add:
  "c' \<noteq> c \<Longrightarrow> containerToSelectedIds (addFishToSelected fid c w) c' = containerToSelectedIds w c'
     \<and> doms (addFishToSelected fid c w) c' = doms w c'"
  by (simp add: addFishToSelected_def frame_filterFishOptions frame_updateSelectedStats frame_internal)

lemma frame_remove:
  "c' \<noteq> c \<Longrightarrow> containerToSelectedIds (removeFishFromSelected fid c w) c' = containerToSelectedIds w c'
     \<and> doms (removeFishFromSelected fid c w) c' = doms w c'"
  by (simp add: removeFishFromSelected_def split_beta Let_def map_snd_getSelectedSet
      frame_filterFishOptions frame_updateSelectedStats)

lemma frame_foldl:
  assumes "\<And>x w. containerToSelectedIds (f w x) c' = containerToSelectedIds w c' \<and> doms (f w x) c' = doms w c'"
  shows "containerToSelectedIds (foldl f w xs) c' = containerToSelectedIds w c' \<and> doms (foldl f w xs) c' = doms w c'"
  by (induction xs arbitrary: w) (simp_all add: assms)

lemma frame_clear:
  "c' \<noteq> c \<Longrightarrow> containerToSelectedIds (clearAllSelected c w) c' = containerToSelectedIds w c'
     \<and> doms (clearAllSelected c w) c' = doms w c'"
  by (simp add: clearAllSelected_def split_beta Let_def frame_foldl frame_remove map_snd_getSelectedSet)

lemma frame_initialize:
  "c' \<noteq> c \<Longrightarrow> containerToSelectedIds (initializeSelectedFish ids c w) c' = containerToSelectedIds w c'
     \<and> doms (initializeSelectedFish ids c w) c' = doms w c'"
  by (simp add: initializeSelectedFish_def split_beta Let_def frame_foldl frame_internal
      frame_filterFishOptions frame_updateSelectedStats map_snd_getSelectedSet)

lemma frame_updateRarity:
  "c' \<noteq> c \<Longrightarrow> containerToSelectedIds (updateRarityCheckboxState lr r c w) c' = containerToSelectedIds w c'
     \<and> doms (updateRarityCheckboxState lr r c w) c' = doms w c'"
  by (simp add: updateRarityCheckboxState_def Let_def split: option.splits)

lemma frame_toggle:
  "c' \<noteq> c \<Longrightarrow> containerToSelectedIds (toggleFishSelection lr i c b w) c' = containerToSelectedIds w c'
     \<and> doms (toggleFishSelection lr i c b w) c' = doms w c'"
  by (simp add: toggleFishSelection_def Let_def frame_updateRarity)

lemma frame_header_change:
  "c' \<noteq> c \<Longrightarrow> containerToSelectedIds (rarity_select_all_change r c w) c' = containerToSelectedIds w c'
     \<and> doms (rarity_select_all_change r c w) c' = doms w c'"
  by (simp add: rarity_select_all_change_def Let_def frame_updateRarity split: option.splits)

lemma frame_click_checkbox:
  "c' \<noteq> c \<Longrightarrow> containerToSelectedIds (click_checkbox lr i c w) c' = containerToSelectedIds w c'
     \<and> doms (click_checkbox lr i c w) c' = doms w c'"
  by (simp add: click_checkbox_def Let_def)

lemma frame_step:
  "c' \<noteq> c \<Longrightarrow> containerToSelectedIds (step c e w) c' = containerToSelectedIds w c'
     \<and> doms (step c e w) c' = doms w c'"
  by (cases e)
    (simp_all add: frame_add frame_remove frame_clear frame_initialize frame_filterFishOptions
      frame_toggle frame_click_checkbox frame_header_change addSelectedBtn_click_def
      removeSelectedBtn_click_def frame_foldl)

lemma selected_frame:
  "containerToSelectedIds w' c = containerToSelectedIds w c \<Longrightarrow> selected w' c = selected w c"
  by (simp add: selected_alt)

subsection \<open>Lists\<close>

lemma map_filter_append: "List.map_filter g (xs @ ys) = List.map_filter g xs @ List.map_filter g ys"
  by (simp add: List.map_filter_def)

lemma remove_first_map: "remove_first P (map h xs) = map h (remove_first (P \<circ> h) xs)"
  by (induction xs) simp_all

lemma remove_first_none: "\<forall>x\<in>set xs. \<not> P x \<Longrightarrow> remove_first P xs = xs"
  by (induction xs) simp_all

lemma set_remove_first: "set (remove_first P xs) \<subseteq> set xs"
  by (induction xs) auto

lemma remove_first_map_filter:
  assumes key: "\<And>i x. g i = Some x \<Longrightarrow> k x = i"
  shows "distinct s \<Longrightarrow>
    remove_first (\<lambda>x. k x = f) (List.map_filter g s) = List.map_filter g (removeAll f s)"
proof (induction s)
  case Nil
  then show ?case by (simp add: List.map_filter_def)
next
  case (Cons a s)
  show ?case
  proof (cases "a = f")
    case True
    with Cons.prems have notin: "f \<notin> set s" by simp
    have rest: "\<forall>x\<in>set (List.map_filter g s). k x \<noteq> f"
      using notin key by (auto simp: List.map_filter_def)
    show ?thesis
    proof (cases "g a")
      case None
      with True notin rest show ?thesis
        by (simp add: List.map_filter_simps remove_first_none)
    next
      case (Some x)
      with key have "k x = a" by simp
      with True Some notin show ?thesis
        by (simp add: List.map_filter_simps)
    qed
  next
    case False
    with Cons key show ?thesis
      by (auto simp: List.map_filter_simps split: option.splits)
  qed
qed

subsection \<open>Candidates depend on the data attributes only\<close>

lemma candidate_Nil [simp]: "candidate [] fid = None"
  by (simp add: candidate_def)

lemma candidate_Cons:
  "candidate (it # its) fid = (if fishId it = fid then Some (data_of it) else candidate its fid)"
  by (simp add: candidate_def)

lemma candidate_cong:
  "map data_of xs = map data_of ys \<Longrightarrow> candidate xs fid = candidate ys fid"
proof (induction xs arbitrary: ys)
  case Nil
  then show ?case by simp
next
  case (Cons x xs)
  then obtain y ys' where ys: "ys = y # ys'" "data_of x = data_of y" "map data_of xs = map data_of ys'"
    by (cases ys) auto
  from ys(2) have "fishId x = fishId y" by (simp add: data_of_def)
  with Cons.IH [OF ys(3)] ys show ?case by (simp add: candidate_Cons)
qed

lemma candidate_key: "candidate xs fid = Some x \<Longrightarrow> fst x = fid"
  by (induction xs) (auto simp: candidate_Cons data_of_def split: if_splits)

lemma candidate_None_iff: "candidate xs fid = None \<longleftrightarrow> fid \<notin> fishId ` set xs"
  by (induction xs) (auto simp: candidate_Cons)

lemma candidate_find:
  "candidate xs fid = (case find (\<lambda>it. fishId it = fid) xs of None \<Rightarrow> None | Some t \<Rightarrow> Some (data_of t))"
  by (simp add: candidate_def split: option.splits)

lemma data_of_new [simp]: "data_of (new_selected_item t) = data_of t"
  by (simp add: data_of_def new_selected_item_def)

lemma data_of_upd [simp]:
  "data_of (it\<lparr>display_none := a\<rparr>) = data_of it"
  "data_of (it\<lparr>d_none := b\<rparr>) = data_of it"
  "data_of (it\<lparr>checked := e\<rparr>) = data_of it"
  by (simp_all add: data_of_def)

lemma map_data_of_update:
  "i < length xs \<Longrightarrow> data_of y = data_of (xs ! i) \<Longrightarrow> map data_of (xs[i := y]) = map data_of xs"
  by (simp add: map_update list_update_same_conv)

subsection \<open>Effect of the primitives on their container\<close>

lemma selected_internal:
  "selected (addFishToSelected_internal fid c w) c = Set_add (selected w c) fid"
  by (simp add: addFishToSelected_internal_def split_beta Let_def Set_has_def Set_add_def
      split: option.splits)

lemma doms_internal:
  "doms (addFishToSelected_internal fid c w) c =
     (if fid \<in> set (selected w c) then doms w c
      else case find (\<lambda>it. fishId it = fid) (totalFishList (doms w c)) of
             None \<Rightarrow> doms w c
           | Some t \<Rightarrow> (doms w c)\<lparr>selectedFishList := selectedFishList (doms w c) @ [new_selected_item t]\<rparr>)"
  by (simp add: addFishToSelected_internal_def split_beta Let_def Set_has_def
      split: option.splits)

lemma selected_filter [simp]: "selected (filterFishOptions c w) c' = selected w c'"
  by (simp add: filterFishOptions_eq)

lemma doms_filter: "doms (filterFishOptions c w) c = filtered (selected w c) (doms w c)"
  by (simp add: filterFishOptions_eq)

lemma selected_stats [simp]: "selected (updateSelectedStats c w) c' = selected w c'"
  by (simp add: updateSelectedStats_eq)

lemma doms_stats: "doms (updateSelectedStats c w) c = with_stats (selected w c) (doms w c)"
  by (simp add: updateSelectedStats_eq)

lemma selected_add: "selected (addFishToSelected fid c w) c = Set_add (selected w c) fid"
  by (simp add: addFishToSelected_def selected_internal)

lemma selected_remove:
  "selected (removeFishFromSelected fid c w) c = removeAll fid (selected w c)"
  by (simp add: removeFishFromSelected_def split_beta Let_def Set_has_def Set_delete_def)

lemma doms_remove_absent:
  "fid \<notin> set (selected w c) \<Longrightarrow> doms (removeFishFromSelected fid c w) = doms w"
  by (simp add: removeFishFromSelected_def split_beta Let_def Set_has_def)

lemma doms_remove_present:
  "fid \<in> set (selected w c) \<Longrightarrow> doms (removeFishFromSelected fid c w) c =
     filtered (removeAll fid (selected w c))
       (with_stats (removeAll fid (selected w c))
          ((doms w c)\<lparr>selectedFishList := remove_first (\<lambda>it. fishId it = fid) (selectedFishList (doms w c))\<rparr>))"
  by (simp add: removeFishFromSelected_def split_beta Let_def Set_has_def Set_delete_def
      doms_filter doms_stats)

subsection \<open>Fields of the closed forms\<close>

lemma filtered_fields [simp]:
  "selectedFishList (filtered s d) = selectedFishList d"
  "selectedCount (filtered s d) = selectedCount d"
  "totalValue (filtered s d) = totalValue d"
  "specific_fish_ids_input (filtered s d) = specific_fish_ids_input d"
  "rarity_select_all (filtered s d) = rarity_select_all d"
  "fishSearch (filtered s d) = fishSearch d"
  "rarityFilter (filtered s d) = rarityFilter d"
  "map data_of (totalFishList (filtered s d)) = map data_of (totalFishList d)"
  by (simp_all add: filtered_def comp_def)

lemma with_stats_fields [simp]:
  "totalFishList (with_stats s d) = totalFishList d"
  "selectedCount (with_stats s d) = length s"
  "totalValue (with_stats s d) = total_of (map data_value (selectedFishList d))"
  "specific_fish_ids_input (with_stats s d) = join '','' (map js_toString s)"
  "selectedFishList (with_stats s d) =
     map (\<lambda>el. el\<lparr>d_none := False, display_none := False\<rparr>) (selectedFishList d)"
  "rarity_select_all (with_stats s d) = rarity_select_all d"
  "fishSearch (with_stats s d) = fishSearch d"
  "rarityFilter (with_stats s d) = rarityFilter d"
  by (simp_all add: with_stats_def)

lemma unhide_data [simp]:
  "data_of \<circ> (\<lambda>el. el\<lparr>d_none := False, display_none := False\<rparr>) = data_of"
  "data_value \<circ> (\<lambda>el. el\<lparr>d_none := False, display_none := False\<rparr>) = data_value"
  by (simp_all add: fun_eq_iff)

lemma unhide_id:
  "list_all (\<lambda>it. \<not> display_none it \<and> \<not> d_none it) xs \<Longrightarrow>
     map (\<lambda>el. el\<lparr>d_none := False, display_none := False\<rparr>) xs = xs"
  by (induction xs) simp_all

lemma unhide_shown:
  "list_all (\<lambda>it. \<not> display_none it \<and> \<not> d_none it)
     (map (\<lambda>el. el\<lparr>d_none := False, display_none := False\<rparr>) xs)"
  by (induction xs) simp_all

lemma candidate_filtered [simp]: "candidate (totalFishList (filtered s d)) = candidate (totalFishList d)"
  by (rule ext, rule candidate_cong) simp

subsection \<open>Invariants depend on the container's own state\<close>

lemma consistent_cong:
  assumes "containerToSelectedIds w' c = containerToSelectedIds w c" "doms w' c = doms w c"
  shows "rendered_ok c w' = rendered_ok c w" "shown_ok c w' = shown_ok c w" "stats_ok c w' = stats_ok c w"
  using assms selected_frame [OF assms(1)]
  by (simp_all add: rendered_ok_def shown_ok_def stats_ok_def)

subsection \<open>Filter and statistics\<close>

lemma rendered_ok_filter [simp]: "rendered_ok c (filterFishOptions c w) = rendered_ok c w"
  by (simp add: rendered_ok_def doms_filter)

lemma shown_ok_filter [simp]: "shown_ok c (filterFishOptions c w) = shown_ok c w"
  by (simp add: shown_ok_def doms_filter)

lemma stats_ok_filter [simp]: "stats_ok c (filterFishOptions c w) = stats_ok c w"
  by (simp add: stats_ok_def doms_filter)

lemma rendered_ok_stats [simp]: "rendered_ok c (updateSelectedStats c w) = rendered_ok c w"
  by (simp add: rendered_ok_def doms_stats)

lemma shown_ok_stats [simp]: "shown_ok c (updateSelectedStats c w)"
  by (simp add: shown_ok_def doms_stats unhide_shown)

lemma stats_ok_stats [simp]: "stats_ok c (updateSelectedStats c w)"
  by (simp add: stats_ok_def doms_stats)

subsection \<open>Adding\<close>

lemma rendered_ok_internal:
  assumes "rendered_ok c w"
  shows "rendered_ok c (addFishToSelected_internal fid c w)"
proof (cases "fid \<in> set (selected w c)")
  case True
  with assms show ?thesis
    by (simp add: rendered_ok_def selected_internal doms_internal Set_add_member)
next
  case False
  then have sel: "Set_add (selected w c) fid = selected w c @ [fid]"
    by (simp add: Set_add_def)
  show ?thesis
    using assms False
    by (auto simp: rendered_ok_def selected_internal doms_internal sel map_filter_append
        List.map_filter_simps candidate_def split: option.splits)
qed

lemma shown_ok_internal:
  "shown_ok c w \<Longrightarrow> shown_ok c (addFishToSelected_internal fid c w)"
  by (simp add: shown_ok_def doms_internal new_selected_item_def split: option.splits)

lemma consistent_add:
  "rendered_ok c w \<Longrightarrow> consistent c (addFishToSelected fid c w)"
  by (simp add: consistent_def addFishToSelected_def rendered_ok_internal)

subsection \<open>Removing\<close>

lemma consistent_remove:
  assumes "consistent c w"
  shows "consistent c (removeFishFromSelected fid c w)"
proof (cases "fid \<in> set (selected w c)")
  case False
  have "containerToSelectedIds (removeFishFromSelected fid c w) c = Some (selected w c)"
    using False by (simp add: removeFishFromSelected_def split_beta Set_has_def map_snd_getSelectedSet)
  then have "selected (removeFishFromSelected fid c w) c = selected w c"
    by (simp add: selected_alt)
  with assms False show ?thesis
    by (simp add: consistent_def rendered_ok_def shown_ok_def stats_ok_def doms_remove_absent)
next
  case True
  from assms have d: "distinct (selected w c)"
    and r: "map data_of (selectedFishList (doms w c)) =
            List.map_filter (candidate (totalFishList (doms w c))) (selected w c)"
    by (simp_all add: consistent_def rendered_ok_def)
  have "map data_of (remove_first (\<lambda>it. fishId it = fid) (selectedFishList (doms w c))) =
        remove_first (\<lambda>x. fst x = fid) (map data_of (selectedFishList (doms w c)))"
    by (simp add: remove_first_map comp_def data_of_def)
  also have "\<dots> = List.map_filter (candidate (totalFishList (doms w c))) (removeAll fid (selected w c))"
    unfolding r by (rule remove_first_map_filter [OF candidate_key d])
  finally have "rendered_ok c (removeFishFromSelected fid c w)"
    using True d by (simp add: rendered_ok_def selected_remove doms_remove_present distinct_removeAll)
  moreover have "shown_ok c (removeFishFromSelected fid c w)"
    using True by (simp add: shown_ok_def doms_remove_present unhide_shown)
  moreover have "stats_ok c (removeFishFromSelected fid c w)"
    using True by (simp add: stats_ok_def selected_remove doms_remove_present)
  ultimately show ?thesis by (simp add: consistent_def)
qed

lemma consistent_foldl:
  assumes "\<And>x w. consistent c w \<Longrightarrow> consistent c (f w x)"
  shows "consistent c w \<Longrightarrow> consistent c (foldl f w xs)"
  by (induction xs arbitrary: w) (simp_all add: assms)

lemma consistent_getSelectedSet [simp]: "consistent c (snd (getSelectedSet c' w)) = consistent c w"
  by (simp add: consistent_def rendered_ok_def shown_ok_def stats_ok_def)

lemma consistent_clear:
  "consistent c w \<Longrightarrow> consistent c (clearAllSelected c w)"
  by (simp add: clearAllSelected_def split_beta Let_def consistent_foldl consistent_remove)

subsection \<open>Initializing\<close>

lemma pre_ok_foldl_internal:
  "rendered_ok c w \<Longrightarrow> rendered_ok c (foldl (\<lambda>w' fid. addFishToSelected_internal fid c w') w ids)"
  by (induction ids arbitrary: w) (simp_all add: rendered_ok_internal)

lemma rendered_ok_reset:
  "selectedFishList d = [] \<Longrightarrow> rendered_ok c (store_dom c d (store_set c [] w))"
  by (simp add: rendered_ok_def List.map_filter_simps)

lemma consistent_initialize: "consistent c (initializeSelectedFish ids c w)"
  by (simp add: initializeSelectedFish_def split_beta Let_def consistent_def
      pre_ok_foldl_internal rendered_ok_reset)

subsection \<open>Listeners that leave the selection alone\<close>

lemma consistent_store_dom:
  assumes "map data_of (selectedFishList d) = map data_of (selectedFishList (doms w c))"
    and "map data_of (totalFishList d) = map data_of (totalFishList (doms w c))"
    and "map display_none (selectedFishList d) = map display_none (selectedFishList (doms w c))"
    and "map d_none (selectedFishList d) = map d_none (selectedFishList (doms w c))"
    and "selectedCount d = selectedCount (doms w c)"
    and "totalValue d = totalValue (doms w c)"
    and "specific_fish_ids_input d = specific_fish_ids_input (doms w c)"
  shows "consistent c (store_dom c d w) = consistent c w"
proof -
  have cand: "candidate (totalFishList d) = candidate (totalFishList (doms w c))"
    by (rule ext, rule candidate_cong) (rule assms(2))
  have "map data_value (selectedFishList d) = map (fst \<circ> snd \<circ> snd) (map data_of (selectedFishList d))"
    by (simp add: comp_def data_of_def)
  also have "\<dots> = map data_value (selectedFishList (doms w c))"
    unfolding assms(1) by (simp add: comp_def data_of_def)
  finally have vals: "map data_value (selectedFishList d) = map data_value (selectedFishList (doms w c))" .
  have "list_all (\<lambda>it. \<not> display_none it \<and> \<not> d_none it) xs \<longleftrightarrow>
        list_all (\<lambda>b. \<not> b) (map display_none xs) \<and> list_all (\<lambda>b. \<not> b) (map d_none xs)" for xs :: "fish_item list"
    by (induction xs) auto
  then have shown: "list_all (\<lambda>it. \<not> display_none it \<and> \<not> d_none it) (selectedFishList d) =
      list_all (\<lambda>it. \<not> display_none it \<and> \<not> d_none it) (selectedFishList (doms w c))"
    using assms(3,4) by simp
  show ?thesis
    using assms(1,5,6,7) cand vals shown
    by (simp add: consistent_def rendered_ok_def shown_ok_def stats_ok_def)
qed

lemma consistent_updateRarity [simp]:
  "consistent c (updateRarityCheckboxState lr r c w) = consistent c w"
  by (simp add: updateRarityCheckboxState_def Let_def consistent_store_dom split: option.splits)

lemma toggled_maps:
  "i < length xs \<Longrightarrow> map data_of (xs[i := (xs ! i)\<lparr>checked := b\<rparr>]) = map data_of xs"
  "i < length xs \<Longrightarrow> map display_none (xs[i := (xs ! i)\<lparr>checked := b\<rparr>]) = map display_none xs"
  "i < length xs \<Longrightarrow> map d_none (xs[i := (xs ! i)\<lparr>checked := b\<rparr>]) = map d_none xs"
  by (simp_all add: map_update list_update_same_conv)

lemma consistent_click_checkbox [simp]:
  "consistent c (click_checkbox lr i c w) = consistent c w"
  by (cases lr)
    (simp_all add: click_checkbox_def Let_def list_of_def set_list_def consistent_store_dom toggled_maps)

lemma consistent_toggle [simp]:
  "consistent c (toggleFishSelection lr i c b w) = consistent c w"
  by (cases lr)
    (simp_all add: toggleFishSelection_def Let_def list_of_def set_list_def consistent_store_dom
      toggled_maps)

lemma header_items_data:
  "map data_of (map (\<lambda>item. if P item then item\<lparr>checked := b\<rparr> else item) xs) = map data_of xs"
  by (induction xs) simp_all

lemma consistent_header_change [simp]:
  "consistent c (rarity_select_all_change r c w) = consistent c w"
  by (simp add: rarity_select_all_change_def Let_def consistent_store_dom header_items_data
      split: option.splits)

lemma consistent_filter [simp]: "consistent c (filterFishOptions c w) = consistent c w"
  by (simp add: consistent_def)

subsection \<open>Every event keeps a consistent dialog consistent\<close>

lemma consistent_add':
  "consistent c w \<Longrightarrow> consistent c (addFishToSelected fid c w)"
  by (rule consistent_add) (simp add: consistent_def)

lemma consistent_step_same:
  assumes "consistent c w"
  shows "consistent c (step c e w)"
proof (cases e)
  case (Add fid)
  with assms show ?thesis by (simp add: consistent_add')
next
  case (Remove fid)
  with assms show ?thesis by (simp add: consistent_remove)
next
  case ClearAll
  with assms show ?thesis by (simp add: consistent_clear)
next
  case (Initialize ids)
  then show ?thesis by (simp add: consistent_initialize)
next
  case (SetSearchValue s)
  with assms show ?thesis by (simp add: consistent_store_dom)
next
  case Keyup
  with assms show ?thesis by simp
next
  case (ChangeRarityFilter r)
  with assms show ?thesis by (simp add: consistent_store_dom)
next
  case (ToggleItem lr i b)
  with assms show ?thesis by simp
next
  case (ClickCheckbox lr i)
  with assms show ?thesis by simp
next
  case (ChangeHeader r)
  with assms show ?thesis by simp
next
  case AddSelectedBtn
  have "consistent c (foldl (\<lambda>w' cb. addFishToSelected (fishId cb) c w') w xs)" for xs
    using assms by (rule consistent_foldl [rotated]) (simp add: consistent_add')
  with AddSelectedBtn show ?thesis by (simp add: addSelectedBtn_click_def)
next
  case RemoveSelectedBtn
  have "consistent c (foldl (\<lambda>w' cb. removeFishFromSelected (fishId cb) c w') w xs)" for xs
    using assms by (rule consistent_foldl [rotated]) (simp add: consistent_remove)
  with RemoveSelectedBtn show ?thesis by (simp add: removeSelectedBtn_click_def)
qed

lemma consistent_step:
  "consistent c w \<Longrightarrow> consistent c (step c' e w)"
proof (cases "c' = c")
  case True
  then show "consistent c w \<Longrightarrow> ?thesis" by (simp add: consistent_step_same)
next
  case False
  then have "c \<noteq> c'" by simp
  from frame_step [OF this, of e w]
  have "containerToSelectedIds (step c' e w) c = containerToSelectedIds w c"
    and "doms (step c' e w) c = doms w c" by simp_all
  from consistent_cong [OF this] show "consistent c w \<Longrightarrow> ?thesis"
    by (simp add: consistent_def)
qed

lemma consistent_run:
  "consistent c w \<Longrightarrow> consistent c (run es w)"
  by (induction es arbitrary: w) (auto simp: consistent_step)

lemma consistent_reachable: "consistent c (run es (initializeSelectedFish ids c w0))"
  by (rule consistent_run) (rule consistent_initialize)

text \<open>A dialog shown for the first time, before its container has a set, is consistent too.\<close>

lemma consistent_first_show:
  "containerToSelectedIds w c = None \<Longrightarrow> consistent c (show_bs_modal allFishData c w)"
  by (simp add: show_bs_modal_def setupFishSelection_def consistent_def
      rendered_ok_def shown_ok_def stats_ok_def renderForm_def selected_alt
      store_dom_def getSelectedSet_def filterFishOptions_eq)

lemma reachable_consistent: "reachable c w \<Longrightarrow> consistent c w"
proof (induction rule: reachable.induct)
  case (initialized ids w)
  show ?case by (rule consistent_initialize)
next
  case (first_shown w allFishData)
  then show ?case by (rule consistent_first_show)
next
  case (event w c' e)
  then show ?case by (simp add: consistent_step)
next
  case (elsewhere w w')
  from consistent_cong [OF elsewhere(2,3)] elsewhere(4) show ?case
    by (simp add: consistent_def)
qed

lemma reachable_run: "reachable c w \<Longrightarrow> reachable c (run es w)"
proof (induction es arbitrary: w)
  case Nil
  then show ?case by simp
next
  case (Cons ce es)
  obtain c' e where ce: "ce = (c', e)" by (cases ce)
  from Cons.prems have "reachable c (step c' e w)" by (rule reachable.event)
  then have "reachable c (run es (step c' e w))" by (rule Cons.IH)
  with ce show ?case by simp
qed

subsection \<open>Reading a serialized id list back\<close>

lemma of_char_digit_char: "d < 10 \<Longrightarrow> (of_char (digit_char d) :: nat) = 48 + d"
  by (simp add: digit_char_def)

lemma digit_val_digit_char [simp]: "d < 10 \<Longrightarrow> digit_val (digit_char d) = d"
  by (simp add: digit_val_def of_char_digit_char)

lemma digit_char_not_comma: "d < 10 \<Longrightarrow> digit_char d \<noteq> CHR '',''"
proof
  assume "d < 10" "digit_char d = CHR '',''"
  then have "(of_char (digit_char d) :: nat) = of_char CHR '',''" by simp
  with \<open>d < 10\<close> show False by (simp add: of_char_digit_char)
qed

lemma digit_char_not_minus: "d < 10 \<Longrightarrow> digit_char d \<noteq> CHR ''-''"
proof
  assume "d < 10" "digit_char d = CHR ''-''"
  then have "(of_char (digit_char d) :: nat) = of_char CHR ''-''" by simp
  with \<open>d < 10\<close> show False by (simp add: of_char_digit_char)
qed

lemma digits_chars: "ch \<in> set (digits n) \<Longrightarrow> \<exists>d<10. ch = digit_char d"
proof (induction n rule: digits.induct)
  case (1 n)
  show ?case
  proof (cases "n < 10")
    case True
    with "1.prems" show ?thesis by (auto simp: digits.simps [of n])
  next
    case False
    with "1.prems" have "ch \<in> set (digits (n div 10)) \<or> ch = digit_char (n mod 10)"
      by (auto simp: digits.simps [of n])
    with "1.IH" False show ?thesis by (auto intro: exI [of _ "n mod 10"])
  qed
qed

lemma digits_not_Nil [simp]: "digits n \<noteq> []"
  by (subst digits.simps) simp

lemma read_digits_snoc: "read_digits (s @ [ch]) = 10 * read_digits s + digit_val ch"
  by (simp add: read_digits_def)

lemma read_digits_digits [simp]: "read_digits (digits n) = n"
proof (induction n rule: digits.induct)
  case (1 n)
  show ?case
  proof (cases "n < 10")
    case True
    then show ?thesis by (simp add: digits.simps [of n] read_digits_def)
  next
    case False
    with "1.IH" show ?thesis by (simp add: digits.simps [of n] read_digits_snoc)
  qed
qed

lemma hd_digits_not_minus: "digits n = ch # ds \<Longrightarrow> ch \<noteq> CHR ''-''"
proof -
  assume "digits n = ch # ds"
  then have "ch \<in> set (digits n)" by simp
  then obtain d where "d < 10" "ch = digit_char d" using digits_chars by blast
  with digit_char_not_minus [of d] show ?thesis by simp
qed

lemma read_int_js_toString [simp]: "read_int (js_toString i) = i"
proof (cases "i < 0")
  case True
  then show ?thesis by (simp add: read_int_def js_toString_def)
next
  case False
  obtain ch ds where ds: "digits (nat i) = ch # ds"
    by (cases "digits (nat i)") simp_all
  with hd_digits_not_minus [OF ds] False show ?thesis
    using read_digits_digits [of "nat i"] by (simp add: read_int_def js_toString_def)
qed

lemma digits_no_comma: "CHR '','' \<notin> set (digits n)"
proof
  assume "CHR '','' \<in> set (digits n)"
  then obtain d where "d < 10" "CHR '','' = digit_char d" using digits_chars by blast
  with digit_char_not_comma [of d] show False by simp
qed

lemma js_toString_no_comma: "CHR '','' \<notin> set (js_toString i)"
  by (simp add: js_toString_def digits_no_comma)

lemma js_toString_not_Nil [simp]: "js_toString i \<noteq> []"
  by (simp add: js_toString_def)

lemma split_on_no_sep: "sep \<notin> set x \<Longrightarrow> split_on sep x = [x]"
  by (induction x) auto

lemma split_on_append: "sep \<notin> set x \<Longrightarrow> split_on sep (x @ sep # rest) = x # split_on sep rest"
  by (induction x) auto

lemma split_on_join:
  "xs \<noteq> [] \<Longrightarrow> \<forall>x\<in>set xs. sep \<notin> set x \<Longrightarrow> split_on sep (join [sep] xs) = xs"
  by (induction "[sep]" xs rule: join.induct) (simp_all add: split_on_no_sep split_on_append)

lemma join_Nil_iff: "\<forall>x\<in>set xs. x \<noteq> [] \<Longrightarrow> join sep xs = [] \<longleftrightarrow> xs = []"
  by (induction sep xs rule: join.induct) simp_all

lemma ids_of_serialization_join [simp]:
  "ids_of_serialization (join '','' (map js_toString ids)) = ids"
proof (cases "ids = []")
  case True
  then show ?thesis by (simp add: ids_of_serialization_def)
next
  case False
  then have ne: "join '','' (map js_toString ids) \<noteq> []"
    by (subst join_Nil_iff) simp_all
  have "split_on CHR '','' (join '','' (map js_toString ids)) = map js_toString ids"
    using False by (intro split_on_join) (auto simp: js_toString_no_comma)
  with ne show ?thesis by (simp add: ids_of_serialization_def comp_def map_idI)
qed

subsection \<open>More on runs, initialization and the rendered list\<close>

lemma frame_run:
  "\<forall>ce\<in>set es. fst ce \<noteq> c' \<Longrightarrow>
     containerToSelectedIds (run es w) c' = containerToSelectedIds w c' \<and> doms (run es w) c' = doms w c'"
proof (induction es arbitrary: w)
  case Nil
  then show ?case by simp
next
  case (Cons ce es)
  obtain c e where ce: "ce = (c, e)" by (cases ce)
  with Cons.prems have "c' \<noteq> c" by auto
  from frame_step [OF this, of e w] Cons ce show ?case by simp
qed

lemma selected_foldl_internal:
  "selected (foldl (\<lambda>w' fid. addFishToSelected_internal fid c w') w ids) c =
     foldl Set_add (selected w c) ids"
  by (induction ids arbitrary: w) (simp_all add: selected_internal)

lemma selected_initialize:
  "selected (initializeSelectedFish ids c w) c = foldl Set_add [] ids"
  by (simp add: initializeSelectedFish_def split_beta Let_def selected_foldl_internal)

lemma foldl_Set_add_first_occurrences: "foldl Set_add [] ids = rev (remdups (rev ids))"
  by (induction ids rule: rev_induct) (simp_all add: Set_add_def)

lemma selected_clear_step:
  "selected (foldl (\<lambda>w' fid. removeFishFromSelected fid c w') w ids) c =
     foldl (\<lambda>s fid. removeAll fid s) (selected w c) ids"
  by (induction ids arbitrary: w) (simp_all add: selected_remove)

lemma foldl_removeAll: "set (foldl (\<lambda>s fid. removeAll fid s) s ids) = set s - set ids"
  by (induction ids arbitrary: s) auto

lemma rendered_ids_of_candidates:
  "map fst (List.map_filter (candidate cands) s) = filter (\<lambda>i. i \<in> set (map fishId cands)) s"
proof (induction s)
  case Nil
  then show ?case by simp
next
  case (Cons i s)
  show ?case
  proof (cases "candidate cands i")
    case None
    with Cons candidate_None_iff [of cands i] show ?thesis by simp
  next
    case (Some x)
    with candidate_key [OF Some] candidate_None_iff [of cands i] Cons show ?thesis by simp
  qed
qed

lemma rendered_ok_ids:
  assumes "rendered_ok c w"
  shows "rendered_ids w c = filter (has_candidate w c) (selected w c)"
proof -
  have "rendered_ids w c = map fst (map data_of (selectedFishList (doms w c)))"
    by (simp add: rendered_ids_def comp_def data_of_def)
  also have "\<dots> = map fst (List.map_filter (candidate (totalFishList (doms w c))) (selected w c))"
    using assms by (simp add: rendered_ok_def)
  also have "\<dots> = filter (has_candidate w c) (selected w c)"
    unfolding rendered_ids_of_candidates
    by (rule filter_cong) (simp_all add: has_candidate_def candidate_ids_def)
  finally show ?thesis .
qed

lemma rendered_ok_data_values:
  assumes "rendered_ok c w"
  shows "map data_value (selectedFishList (doms w c)) =
         map (fst \<circ> snd \<circ> snd) (List.map_filter (candidate (totalFishList (doms w c))) (selected w c))"
proof -
  have "map data_value (selectedFishList (doms w c)) =
        map (fst \<circ> snd \<circ> snd) (map data_of (selectedFishList (doms w c)))"
    by (simp add: comp_def data_of_def)
  with assms show ?thesis by (simp add: rendered_ok_def)
qed

lemma selected_example [simp]: "selected example_world c = []"
  by (simp add: selected_alt example_world_def)

lemma doms_example [simp]: "doms example_world c = example_dom"
  by (simp add: example_world_def)

lemma selected_searching [simp]: "selected searching_world c = []"
  by (simp add: selected_alt searching_world_def)

lemma doms_searching [simp]: "doms searching_world c = example_dom\<lparr>fishSearch := ''sal''\<rparr>"
  by (simp add: searching_world_def)

subsection \<open>No event changes the data of the candidate list\<close>

lemma catalog_cong:
  "containerToSelectedIds w' c = containerToSelectedIds w c \<Longrightarrow> doms w' c = doms w c \<Longrightarrow>
     catalog w' c = catalog w c"
  by (simp add: catalog_def)

lemma catalog_getSelectedSet [simp]: "catalog (snd (getSelectedSet c' w)) c = catalog w c"
  by (simp add: catalog_def)

lemma catalog_store_set [simp]: "catalog (store_set c' s w) c = catalog w c"
  by (simp add: catalog_def)

lemma catalog_store_dom:
  "map data_of (totalFishList d) = map data_of (totalFishList (doms w c')) \<Longrightarrow>
     catalog (store_dom c' d w) c = catalog w c"
  by (simp add: catalog_def)

lemma catalog_filter [simp]: "catalog (filterFishOptions c' w) c = catalog w c"
  by (cases "c' = c") (simp_all add: catalog_def filterFishOptions_eq)

lemma catalog_stats [simp]: "catalog (updateSelectedStats c' w) c = catalog w c"
  by (cases "c' = c") (simp_all add: catalog_def updateSelectedStats_eq)

lemma catalog_internal [simp]: "catalog (addFishToSelected_internal fid c' w) c = catalog w c"
  by (simp add: catalog_def addFishToSelected_internal_def split_beta Let_def split: option.splits)

lemma catalog_add [simp]: "catalog (addFishToSelected fid c' w) c = catalog w c"
  by (simp add: addFishToSelected_def)

lemma catalog_remove [simp]: "catalog (removeFishFromSelected fid c' w) c = catalog w c"
  by (simp add: removeFishFromSelected_def split_beta Let_def catalog_store_dom)

lemma catalog_foldl:
  assumes "\<And>x w. catalog (f w x) c = catalog w c"
  shows "catalog (foldl f w xs) c = catalog w c"
  by (induction xs arbitrary: w) (simp_all add: assms)

lemma catalog_clear [simp]: "catalog (clearAllSelected c' w) c = catalog w c"
  by (simp add: clearAllSelected_def split_beta Let_def catalog_foldl)

lemma reset_items_data:
  "map data_of (map (\<lambda>item. item\<lparr>display_none := False, checked := False\<rparr>) xs) = map data_of xs"
  by (induction xs) (simp_all add: data_of_def)

lemma catalog_initialize [simp]: "catalog (initializeSelectedFish ids c' w) c = catalog w c"
  by (simp add: initializeSelectedFish_def split_beta Let_def catalog_foldl catalog_store_dom
      reset_items_data del: map_map)

lemma catalog_updateRarity [simp]: "catalog (updateRarityCheckboxState lr r c' w) c = catalog w c"
  by (simp add: updateRarityCheckboxState_def Let_def catalog_def split: option.splits)

lemma catalog_toggle [simp]: "catalog (toggleFishSelection lr i c' b w) c = catalog w c"
proof -
  have "catalog (store_dom c' (set_list lr ((list_of lr (doms w c'))[i := x\<lparr>checked := e\<rparr>]) (doms w c')) w) c
        = catalog w c"
    if "i < length (list_of lr (doms w c'))" "x = list_of lr (doms w c') ! i" for x e
    using that by (cases lr) (simp_all add: catalog_def list_of_def set_list_def toggled_maps)
  then show ?thesis by (simp add: toggleFishSelection_def Let_def)
qed

lemma catalog_click_checkbox [simp]: "catalog (click_checkbox lr i c' w) c = catalog w c"
  by (cases lr) (simp_all add: click_checkbox_def Let_def catalog_def list_of_def set_list_def toggled_maps)

lemma catalog_header_change [simp]: "catalog (rarity_select_all_change r c' w) c = catalog w c"
  by (simp add: rarity_select_all_change_def Let_def header_items_data catalog_store_dom
      split: option.splits)

lemma catalog_step [simp]: "catalog (step c' e w) c = catalog w c"
  by (cases e)
    (simp_all add: addSelectedBtn_click_def removeSelectedBtn_click_def catalog_foldl
      catalog_store_dom)

lemma catalog_run [simp]: "catalog (run es w) c = catalog w c"
  by (induction es arbitrary: w) auto

lemma candidate_ids_catalog: "candidate_ids w c = map fst (catalog w c)"
  by (simp add: candidate_ids_def catalog_def data_of_def comp_def)

lemma has_candidate_catalog: "has_candidate w c fid \<longleftrightarrow> fid \<in> fst ` set (catalog w c)"
  by (simp add: has_candidate_def candidate_ids_catalog)

lemma catalog_example [simp]:
  "catalog example_world c = [(2, 1, 5, ''carp''), (1, 2, 30, ''Salmon''), (3, 2, 12, ''Eel'')]"
  by (simp add: catalog_def example_dom_def data_of_def)

subsection \<open>Evaluating strings\<close>

lemma digit_char_eval:
  "digit_char 0 = CHR ''0''" "digit_char (Suc 0) = CHR ''1''" "digit_char 2 = CHR ''2''"
  "digit_char 3 = CHR ''3''" "digit_char 4 = CHR ''4''" "digit_char 5 = CHR ''5''"
  "digit_char 6 = CHR ''6''" "digit_char 7 = CHR ''7''" "digit_char 8 = CHR ''8''"
  "digit_char 9 = CHR ''9''"
  by (simp_all add: digit_char_def char_of_def bit_0)

lemmas eval_strings = js_toString_def digits.simps digit_char_eval toLowerCase_def
  toLowerCase_char_def char_of_def bit_0 String_includes_def sublist_code

subsection \<open>Counting checked items\<close>

lemma all_checked_iff: "length (filter P xs) = length xs \<longleftrightarrow> list_all P xs"
proof (induction xs)
  case Nil
  then show ?case by simp
next
  case (Cons x xs)
  have "length (filter P xs) \<noteq> Suc (length xs)"
    using length_filter_le [of P xs] by linarith
  with Cons show ?case by auto
qed

lemma some_checked_iff: "0 < length (filter P xs) \<longleftrightarrow> list_ex P xs"
  by (induction xs) auto

lemma some_unchecked_iff: "length (filter P xs) < length xs \<longleftrightarrow> list_ex (\<lambda>x. \<not> P x) xs"
proof (induction xs)
  case Nil
  then show ?case by simp
next
  case (Cons x xs)
  from Cons show ?case by (auto simp: less_Suc_eq_le)
qed

lemma not_checked_fun: "not_checked = (\<lambda>it. \<not> checked it)"
  by (simp add: fun_eq_iff not_checked_def)

lemma header_reflects_update:
  assumes "rarity_select_all (doms w c) r \<noteq> None"
  shows "header_reflects r (doms (updateRarityCheckboxState (Some lr) (Some r) c w) c)"
proof -
  from assms obtain cb where cb: "rarity_select_all (doms w c) r = Some cb" by auto
  let ?items = "filter (\<lambda>it. rarity it = r \<and> \<not> display_none it) (totalFishList (doms w c))"
  have eq: "length ?items = length (filter checked ?items) \<longleftrightarrow> list_all checked ?items"
    using all_checked_iff [of checked ?items] by auto
  show ?thesis
    using cb eq some_checked_iff [of checked ?items] some_unchecked_iff [of checked ?items]
    by (simp add: updateRarityCheckboxState_def header_reflects_def visible_of_rarity_def Let_def
        not_checked_fun del: filter_filter)
qed

lemma headers_toggle_store:
  "rarity_select_all (set_list lr xs d) = rarity_select_all d"
  by (cases lr) (simp_all add: set_list_def)

lemma header_reflects_toggle:
  assumes "i < length (list_of lr (doms w c))"
    and "rarity_select_all (doms w c) (rarity (list_of lr (doms w c) ! i)) \<noteq> None"
  shows "header_reflects (rarity (list_of lr (doms w c) ! i)) (doms (toggleFishSelection lr i c b w) c)"
  using assms
  by (simp add: toggleFishSelection_def Let_def header_reflects_update headers_toggle_store)

lemma header_reflects_change:
  assumes "rarity_select_all (doms w c) r \<noteq> None"
  shows "header_reflects r (doms (rarity_select_all_change r c w) c)"
  using assms
  by (auto simp: rarity_select_all_change_def Let_def header_reflects_update)

lemma doms_foldl_internal:
  "totalFishList (doms (foldl (\<lambda>w' fid. addFishToSelected_internal fid c w') w ids) c) =
     totalFishList (doms w c) \<and>
   rarity_select_all (doms (foldl (\<lambda>w' fid. addFishToSelected_internal fid c w') w ids) c) =
     rarity_select_all (doms w c)"
  by (induction ids arbitrary: w) (simp_all add: doms_internal split: option.splits)

lemma filtered_checked: "map checked (totalFishList (filtered s d)) = map checked (totalFishList d)"
  by (simp add: filtered_def comp_def)

lemma headers_initialize:
  "rarity_select_all (doms (initializeSelectedFish ids c w) c) r =
     map_option (\<lambda>cb. cb\<lparr>rc_checked := False, indeterminate := False\<rparr>) (rarity_select_all (doms w c) r)"
  by (simp add: initializeSelectedFish_def split_beta Let_def doms_filter doms_stats doms_foldl_internal)

lemma unchecked_initialize:
  "list_all not_checked (totalFishList (doms (initializeSelectedFish ids c w) c))"
proof -
  have "map checked (totalFishList (doms (initializeSelectedFish ids c w) c)) =
        map (\<lambda>_. False) (totalFishList (doms w c))"
    by (simp add: initializeSelectedFish_def split_beta Let_def doms_filter doms_stats
        doms_foldl_internal filtered_checked comp_def)
  then have "\<forall>b\<in>set (map checked (totalFishList (doms (initializeSelectedFish ids c w) c))). \<not> b"
    by simp
  then show ?thesis by (simp add: list_all_iff not_checked_def)
qed

lemma header_reflects_initialize:
  assumes "rarity_select_all (doms w c) r \<noteq> None"
  shows "header_reflects r (doms (initializeSelectedFish ids c w) c)"
proof -
  let ?d = "doms (initializeSelectedFish ids c w) c"
  from unchecked_initialize [of ids c w]
  have "\<forall>it\<in>set (visible_of_rarity r ?d). \<not> checked it"
    by (auto simp: list_all_iff not_checked_def visible_of_rarity_def)
  then have "\<not> list_ex checked (visible_of_rarity r ?d)"
    and "visible_of_rarity r ?d \<noteq> [] \<longrightarrow> \<not> list_all checked (visible_of_rarity r ?d)"
    by (auto simp: list_ex_iff list_all_iff neq_Nil_conv)
  with assms show ?thesis
    by (auto simp: header_reflects_def headers_initialize)
qed

lemmas eval_ops = initializeSelectedFish_def split_beta Let_def doms_filter doms_stats doms_internal
  selected_internal Set_add_def Set_has_def filtered_def with_stats_def isVisible_def
  new_selected_item_def example_dom_def toggleFishSelection_def updateRarityCheckboxState_def
  list_of_def set_list_def visible_of_rarity_def rarity_select_all_change_def

lemma isVisible_shown_by_filter:
  "isVisible (toLowerCase (fishSearch (doms w c))) (rarityFilter (doms w c)) (selected w c) it =
     shown_by_filter w c it"
  by (auto simp: isVisible_def shown_by_filter_def Set_has_def toLowerCase_def)

lemma shown_by_filter_display [simp]:
  "shown_by_filter w c (it\<lparr>display_none := b\<rparr>) = shown_by_filter w c it"
  by (simp add: shown_by_filter_def)

lemma filter_fields_kept:
  "fishSearch (doms (filterFishOptions c w) c) = fishSearch (doms w c)"
  "rarityFilter (doms (filterFishOptions c w) c) = rarityFilter (doms w c)"
  by (simp_all add: doms_filter)

subsection \<open>The rendered form\<close>

lemma upt_1_11: "[Suc 0..<11] = [1, 2, 3, 4, 5, 6, 7, 8, 9, 10]"
  by (simp add: upt_rec)

lemma renderForm_example:
  "totalFishList (renderForm example_fish) = totalFishList example_dom"
  by (simp add: renderForm_def example_fish_def example_dom_def total_item_def upt_1_11)

lemma renderForm_example_headers:
  "rarity_select_all (renderForm example_fish) = rarity_select_all example_dom"
  by (auto simp: renderForm_def example_fish_def example_dom_def fun_eq_iff)

lemma example_dom_rendered:
  assumes "containerToSelectedIds w c = None"
  shows "doms (show_bs_modal example_fish c w) c = example_dom"
proof -
  have s: "selected w c = []"
    using assms by (simp add: selected_alt)
  have "filtered [] (renderForm example_fish) = example_dom"
    by (simp add: filtered_def isVisible_def Set_has_def toLowerCase_def
        renderForm_def example_fish_def example_dom_def total_item_def upt_1_11 fun_eq_iff)
  then show ?thesis
    by (simp add: show_bs_modal_def setupFishSelection_def filterFishOptions_eq s)
qed

lemma total_item_fields [simp]:
  "fishId (total_item f) = fish_id f" "data_value (total_item f) = base_value f"
  "rarity (total_item f) = fish_rarity f" "data_name (total_item f) = fish_name f"
  by (simp_all add: total_item_def)

lemma find_by_fish_id:
  assumes "distinct (map fish_id allFishData)" "f \<in> set allFishData"
  shows "find (\<lambda>it. fishId it = fish_id f) (map total_item (filter Q allFishData)) =
         (if Q f then Some (total_item f) else None)"
  using assms
proof (induction allFishData)
  case Nil
  then show ?case by simp
next
  case (Cons g gs)
  show ?case
  proof (cases "g = f")
    case True
    with Cons.prems have "fish_id f \<notin> set (map fish_id gs)" by simp
    then have "\<forall>g\<in>set gs. fish_id g \<noteq> fish_id f" by (metis image_eqI list.set_map)
    then have "find (\<lambda>it. fishId it = fish_id f) (map total_item (filter Q gs)) = None"
      by (simp add: find_None_iff)
    with True show ?thesis by simp
  next
    case False
    with Cons.prems have "f \<in> set gs" "fish_id g \<noteq> fish_id f" by auto
    with Cons show ?thesis by simp
  qed
qed

lemma find_append:
  "find P (xs @ ys) = (case find P xs of None \<Rightarrow> find P ys | Some x \<Rightarrow> Some x)"
  by (induction xs) simp_all

lemma find_in_rarity_groups:
  assumes "distinct (map fish_id allFishData)" "f \<in> set allFishData"
  shows "find (\<lambda>it. fishId it = fish_id f)
           (concat (map (\<lambda>r. map total_item (filter (\<lambda>g. fish_rarity g = r) allFishData)) rs)) =
         (if fish_rarity f \<in> set rs then Some (total_item f) else None)"
  by (induction rs) (simp_all add: find_append find_by_fish_id [OF assms])

text \<open>In a rendered form the candidate found for a fish id is the item written from the
  fish carrying that id, when ids are unique in \<open>allFishData\<close> and the fish is listed (its
  rarity is one of 1 to 10); an id of no fish, or of a fish of another rarity, has no
  candidate.\<close>

lemma candidate_renderForm:
  assumes "distinct (map fish_id allFishData)"
  shows "candidate (totalFishList (renderForm allFishData)) fid =
         (case fish_with_id allFishData fid of
            None \<Rightarrow> None
          | Some f \<Rightarrow> if listed f then Some (data_of (total_item f)) else None)"
proof (cases "fish_with_id allFishData fid")
  case None
  then have no: "\<forall>f\<in>set allFishData. fish_id f \<noteq> fid"
    by (simp add: fish_with_id_def find_None_iff)
  have "fid \<notin> fishId ` set (totalFishList (renderForm allFishData))"
    using no by (auto simp: renderForm_def)
  with None show ?thesis by (simp add: candidate_None_iff)
next
  case (Some f)
  then have f: "f \<in> set allFishData" "fish_id f = fid"
    by (auto simp: fish_with_id_def find_Some_iff)
  have "fish_rarity f \<in> set [1..<11] \<longleftrightarrow> listed f"
    by (auto simp: listed_def)
  with find_in_rarity_groups [OF assms f(1), of "[1..<11]"] f(2) Some show ?thesis
    by (simp add: candidate_def renderForm_def del: set_upt)
qed

lemma listed_values_of_candidates:
  assumes "distinct (map fish_id allFishData)"
  shows "map (fst \<circ> snd \<circ> snd) (List.map_filter (candidate (totalFishList (renderForm allFishData))) s) =
         listed_base_values allFishData s"
proof (induction s)
  case Nil
  then show ?case by (simp add: listed_base_values_def)
next
  case (Cons fid s)
  then show ?case
    by (simp add: listed_base_values_def listed_base_value_def candidate_renderForm [OF assms]
        data_of_def split: option.splits)
qed

lemma rendered_from_values:
  assumes "rendered_ok c w" "rendered_from allFishData w c" "distinct (map fish_id allFishData)"
  shows "map data_value (selectedFishList (doms w c)) = listed_base_values allFishData (selected w c)"
proof -
  from assms(2) have "candidate (totalFishList (doms w c)) = candidate (totalFishList (renderForm allFishData))"
    by (intro ext candidate_cong) (simp add: rendered_from_def catalog_def)
  with rendered_ok_data_values [OF assms(1)] listed_values_of_candidates [OF assms(3)]
  show ?thesis by simp
qed

text \<open>Where every selected id is the id of a listed fish, these are the base values of the
  selected fish ids.\<close>

lemma listed_base_values_all:
  assumes "\<forall>fid\<in>set sel. \<exists>f. fish_with_id allFishData fid = Some f \<and> listed f"
  shows "listed_base_values allFishData sel = base_values_of_selected allFishData sel"
  using assms
  by (induction sel)
     (auto simp: listed_base_values_def base_values_of_selected_def listed_base_value_def)

text \<open>Opening a dialog renders its candidates from \<open>allFishData\<close>, and no event changes
  them.\<close>

lemma rendered_from_show: "rendered_from allFishData (show_bs_modal allFishData c w) c"
  by (simp add: rendered_from_def catalog_def show_bs_modal_def setupFishSelection_def
      filterFishOptions_eq)

lemma rendered_from_example: "rendered_from example_fish example_world c"
  by (simp add: rendered_from_def catalog_def renderForm_example)

subsection \<open>Clearing\<close>

lemma selected_clear: "selected (clearAllSelected c w) c = []"
proof -
  have "set (selected (clearAllSelected c w) c) = {}"
    by (simp add: clearAllSelected_def split_beta Let_def selected_clear_step foldl_removeAll)
  then show ?thesis by simp
qed

text \<open>In a state a dialog is used in, \<open>clearAllSelected\<close> leaves no selected id and no
  rendered item.\<close>

lemma clear_empties:
  assumes "reachable c w"
  shows "selected (clearAllSelected c w) c = [] \<and> selectedFishList (doms (clearAllSelected c w) c) = []"
proof -
  from assms have "reachable c (step c ClearAll w)" by (rule reachable.event)
  then have "consistent c (clearAllSelected c w)" by (simp add: reachable_consistent)
  then have "rendered_ids (clearAllSelected c w) c =
             filter (has_candidate (clearAllSelected c w) c) (selected (clearAllSelected c w) c)"
    by (simp add: consistent_def rendered_ok_ids)
  then show ?thesis by (simp add: selected_clear rendered_ids_def)
qed

subsection \<open>A form rendered anew before it is initialized\<close>

text \<open>
  The set of a container outlives the form: when a dialog that had fish 1 selected is
  opened again, \<open>show.bs.modal\<close> renders a new form while the set still holds 1, so until
  \<open>shown.bs.modal\<close> runs \<open>initializeSelectedFish\<close> the set and what the form shows disagree.
  (In that form the candidate of a stale id is hidden and unchecked, so no listener can
  add it.)  This is the state left out of \<open>reachable\<close>.
\<close>

lemma reopened_form_is_stale:
  "selected (show_bs_modal example_fish 0 (initializeSelectedFish [1] 0 example_world)) 0 = [1] \<and>
   selectedFishList (doms (show_bs_modal example_fish 0 (initializeSelectedFish [1] 0 example_world)) 0) = [] \<and>
   selectedCount (doms (show_bs_modal example_fish 0 (initializeSelectedFish [1] 0 example_world)) 0) = 0 \<and>
   map display_none
     (totalFishList (doms (show_bs_modal example_fish 0 (initializeSelectedFish [1] 0 example_world)) 0)) =
     [False, True, False] \<and>
   \<not> consistent 0 (show_bs_modal example_fish 0 (initializeSelectedFish [1] 0 example_world))"
proof -
  have sel: "selected (initializeSelectedFish [1] 0 example_world) 0 = [1]"
    by (simp add: selected_initialize Set_add_def)
  have d: "doms (show_bs_modal example_fish 0 (initializeSelectedFish [1] 0 example_world)) 0 =
           filtered [1] (renderForm example_fish)"
    by (simp add: show_bs_modal_def setupFishSelection_def filterFishOptions_eq sel)
  have s: "selected (show_bs_modal example_fish 0 (initializeSelectedFish [1] 0 example_world)) 0 = [1]"
    by (simp add: show_bs_modal_def setupFishSelection_def filterFishOptions_eq sel)
  have tl: "map display_none (totalFishList (filtered [1] (renderForm example_fish))) = [False, True, False]"
    by (simp add: filtered_def isVisible_def Set_has_def toLowerCase_def renderForm_def
        example_fish_def total_item_def upt_1_11)
  have f: "selectedFishList (filtered [1] (renderForm example_fish)) = []"
    "selectedCount (filtered [1] (renderForm example_fish)) = 0"
    by (simp_all add: renderForm_def)
  show ?thesis
    unfolding d s using tl f by (simp add: consistent_def stats_ok_def d s)
qed

section \<open>The claims\<close>

text \<open>
  C1, as the code has it.  In every state a dialog is used in (after its selection has
  been initialized, or on its first opening, and then after any sequence of adds, removes,
  clears, initializations and other events, on any containers): the set holds each id
  once, and the selected list renders, in the set's order and once each, exactly the
  selected ids that have a candidate item; every rendered id is in the set.  A selected id
  without a candidate item has no node (see C10).
\<close>

theorem selected_list_renders_selected_candidates:
  assumes "reachable c w"
  shows "distinct (selected w c) \<and>
         rendered_ids w c = filter (has_candidate w c) (selected w c) \<and>
         distinct (rendered_ids w c) \<and>
         set (rendered_ids w c) \<subseteq> set (selected w c)"
proof -
  from assms have cons: "consistent c w"
    by (rule reachable_consistent)
  then have d: "distinct (selected w c)"
    by (simp add: consistent_def rendered_ok_def)
  have ren: "rendered_ids w c = filter (has_candidate w c) (selected w c)"
    using cons by (simp add: consistent_def rendered_ok_ids)
  from d ren show ?thesis by auto
qed

theorem selected_list_renders_selected_candidates_witness:
  "reachable 0 (run [(0, Add 3), (0, Remove 1)] (initializeSelectedFish [1, 7] 0 example_world)) \<and>
   selected (run [(0, Add 3), (0, Remove 1)] (initializeSelectedFish [1, 7] 0 example_world)) 0 = [7, 3] \<and>
   rendered_ids (run [(0, Add 3), (0, Remove 1)] (initializeSelectedFish [1, 7] 0 example_world)) 0 = [3]"
proof -
  have re: "reachable 0 (run [(0, Add 3), (0, Remove 1)] (initializeSelectedFish [1, 7] 0 example_world))"
    by (rule reachable_run) (rule reachable.initialized)
  have sel: "selected (run [(0, Add 3), (0, Remove 1)] (initializeSelectedFish [1, 7] 0 example_world)) 0 = [7, 3]"
    by (simp add: selected_remove selected_add selected_initialize Set_add_def)
  have has: "has_candidate (run [(0, Add 3), (0, Remove 1)] (initializeSelectedFish [1, 7] 0 example_world)) 0
             = has_candidate example_world 0"
    by (simp add: has_candidate_catalog fun_eq_iff)
  from re selected_list_renders_selected_candidates [OF re]
  show ?thesis unfolding sel has by (simp add: has_candidate_catalog)
qed

text \<open>
  C1, as stated, fails: initializing a dialog with the ids 1 and 7, of which only 1 has a
  candidate item, leaves 7 in the selected set with no item rendered for it.
\<close>

theorem unknown_id_is_selected_but_not_rendered:
  "7 \<in> set (selected (run [(0, Initialize [1, 7])] example_world) 0) \<and>
   7 \<notin> set (rendered_ids (run [(0, Initialize [1, 7])] example_world) 0) \<and>
   rendered_ids (run [(0, Initialize [1, 7])] example_world) 0 = [1]"
  by (simp add: selected_initialize Set_add_def rendered_ids_def
      initializeSelectedFish_def split_beta Let_def doms_filter doms_stats doms_internal
      selected_internal example_dom_def new_selected_item_def)

text \<open>
  C2.  Once a fish id has been added or removed, the hidden input \<open>specific_fish_ids\<close> holds
  the comma-joined decimal ids of the container's selected set, in the set's order; read
  back, it gives exactly the selected ids (as a list, hence as a set).  This holds after
  an add in any state, after a remove of a selected id in any state, and after a remove of
  an id that is not selected (which changes nothing) in every state a dialog is used in.
\<close>

theorem hidden_input_serializes_selected_set:
  assumes "w' = addFishToSelected fid c w \<or>
           (w' = removeFishFromSelected fid c w \<and> (fid \<in> set (selected w c) \<or> reachable c w))"
  shows "specific_fish_ids_input (doms w' c) = join '','' (map js_toString (selected w' c)) \<and>
         ids_of_serialization (specific_fish_ids_input (doms w' c)) = selected w' c \<and>
         set (ids_of_serialization (specific_fish_ids_input (doms w' c))) = set (selected w' c)"
proof -
  have "stats_ok c w'"
    using assms
  proof (elim disjE conjE)
    assume "w' = addFishToSelected fid c w"
    then show ?thesis by (simp add: addFishToSelected_def)
  next
    assume "w' = removeFishFromSelected fid c w" "fid \<in> set (selected w c)"
    then show ?thesis by (simp add: stats_ok_def selected_remove doms_remove_present)
  next
    assume w': "w' = removeFishFromSelected fid c w" and "reachable c w"
    then have "consistent c w" by (simp add: reachable_consistent)
    then have "consistent c w'" unfolding w' by (rule consistent_remove)
    then show ?thesis by (simp add: consistent_def)
  qed
  then have "specific_fish_ids_input (doms w' c) = join '','' (map js_toString (selected w' c))"
    by (simp add: stats_ok_def)
  then show ?thesis by simp
qed

theorem hidden_input_serializes_selected_set_witness:
  "reachable 0 (run [(0, Remove 1)] (initializeSelectedFish [1, 7, -12] 0 example_world)) \<and>
   specific_fish_ids_input
     (doms (removeFishFromSelected 5 0 (run [(0, Remove 1)] (initializeSelectedFish [1, 7, -12] 0 example_world))) 0)
     = ''7,-12'' \<and>
   specific_fish_ids_input
     (doms (addFishToSelected 3 0 (run [(0, Remove 1)] (initializeSelectedFish [1, 7, -12] 0 example_world))) 0)
     = ''7,-12,3'' \<and>
   ids_of_serialization
     (specific_fish_ids_input
        (doms (addFishToSelected 3 0 (run [(0, Remove 1)] (initializeSelectedFish [1, 7, -12] 0 example_world))) 0))
     = [7, -12, 3]"
proof -
  have re: "reachable 0 (run [(0, Remove 1)] (initializeSelectedFish [1, 7, -12] 0 example_world))"
    by (rule reachable_run) (rule reachable.initialized)
  have sel: "selected (addFishToSelected 3 0 (run [(0, Remove 1)] (initializeSelectedFish [1, 7, -12] 0 example_world))) 0
             = [7, -12, 3]"
    by (simp add: selected_add selected_remove selected_initialize Set_add_def)
  have sel': "selected (removeFishFromSelected 5 0 (run [(0, Remove 1)] (initializeSelectedFish [1, 7, -12] 0 example_world))) 0
             = [7, -12]"
    by (simp add: selected_remove selected_initialize Set_add_def)
  from re hidden_input_serializes_selected_set [OF disjI1 [OF refl], of 3 0
      "run [(0, Remove 1)] (initializeSelectedFish [1, 7, -12] 0 example_world)"]
    hidden_input_serializes_selected_set [OF disjI2 [OF conjI [OF refl disjI2 [OF re]]], of 5]
  show ?thesis unfolding sel sel' by (clarsimp simp: eval_strings)
qed

text \<open>
  C4.  Adding is idempotent: in any state, adding a fish id a second time leaves the set,
  the rendered selected list, the displayed count, the displayed total value and the
  hidden input as the first add left them.  And in every state a dialog is used in, adding
  a fish id that is already in the container's selected set leaves those five as they
  were.
\<close>

theorem add_of_selected_id_is_noop:
  "observed (addFishToSelected fid c (addFishToSelected fid c w)) c =
     observed (addFishToSelected fid c w) c \<and>
   (reachable c w \<and> fid \<in> set (selected w c) \<longrightarrow>
      observed (addFishToSelected fid c w) c = observed w c)"
proof -
  have noop: "observed (addFishToSelected fid c v) c = observed v c"
    if ok: "shown_ok c v" "stats_ok c v" and mem: "fid \<in> set (selected v c)" for v
  proof -
    have sel: "selected (addFishToSelected fid c v) c = selected v c"
      using mem by (simp add: selected_add Set_add_member)
    have dom: "doms (addFishToSelected fid c v) c =
               filtered (selected v c) (with_stats (selected v c) (doms v c))"
      using mem
      by (simp add: addFishToSelected_def doms_filter doms_stats doms_internal selected_internal
          Set_add_member)
    from ok(1) have "map (\<lambda>el. el\<lparr>d_none := False, display_none := False\<rparr>) (selectedFishList (doms v c)) =
               selectedFishList (doms v c)"
      by (simp add: shown_ok_def unhide_id)
    with ok(2) show ?thesis
      by (simp add: observed_def sel dom stats_ok_def)
  qed
  have "shown_ok c (addFishToSelected fid c w)" "stats_ok c (addFishToSelected fid c w)"
    by (simp_all add: addFishToSelected_def)
  moreover have "fid \<in> set (selected (addFishToSelected fid c w) c)"
    by (simp add: selected_add)
  ultimately have first: "observed (addFishToSelected fid c (addFishToSelected fid c w)) c =
     observed (addFishToSelected fid c w) c"
    by (rule noop)
  have "observed (addFishToSelected fid c w) c = observed w c"
    if "reachable c w" "fid \<in> set (selected w c)"
  proof -
    from that(1) have "consistent c w" by (rule reachable_consistent)
    then have "shown_ok c w" "stats_ok c w" by (simp_all add: consistent_def)
    then show ?thesis using that(2) by (rule noop)
  qed
  with first show ?thesis by simp
qed

theorem add_of_selected_id_is_noop_witness:
  "reachable 0 (run [(0, Add 2)] (initializeSelectedFish [1, 7] 0 example_world)) \<and>
   1 \<in> set (selected (run [(0, Add 2)] (initializeSelectedFish [1, 7] 0 example_world)) 0) \<and>
   observed (addFishToSelected 1 0 (run [(0, Add 2)] (initializeSelectedFish [1, 7] 0 example_world))) 0 =
     observed (run [(0, Add 2)] (initializeSelectedFish [1, 7] 0 example_world)) 0"
proof -
  have mem: "1 \<in> set (selected (run [(0, Add 2)] (initializeSelectedFish [1, 7] 0 example_world)) 0)"
    by (simp add: selected_add selected_initialize Set_add_def)
  have re: "reachable 0 (run [(0, Add 2)] (initializeSelectedFish [1, 7] 0 example_world))"
    by (rule reachable_run) (rule reachable.initialized)
  from re mem add_of_selected_id_is_noop [of 1 0 "run [(0, Add 2)] (initializeSelectedFish [1, 7] 0 example_world)"]
  show ?thesis by simp
qed

text \<open>
  C5.  Removing a fish id that is not in the container's selected set changes nothing: the
  set, the rendered selected list, the displayed count, the displayed total value and the
  hidden input stay as they were, and so does the rest of every DOM.
\<close>

theorem remove_of_absent_id_is_noop:
  assumes "fid \<notin> set (selected w c)"
  shows "observed (removeFishFromSelected fid c w) c = observed w c \<and>
         doms (removeFishFromSelected fid c w) = doms w \<and>
         selected (removeFishFromSelected fid c w) = selected w"
proof -
  have "selected (removeFishFromSelected fid c w) c' = selected w c'" for c'
    using assms by (simp add: removeFishFromSelected_def split_beta Set_has_def)
  then have "selected (removeFishFromSelected fid c w) = selected w" by (rule ext)
  with assms show ?thesis by (simp add: observed_def doms_remove_absent)
qed

theorem remove_of_absent_id_is_noop_witness:
  "5 \<notin> set (selected (initializeSelectedFish [1, 3] 0 example_world) 0) \<and>
   observed (removeFishFromSelected 5 0 (initializeSelectedFish [1, 3] 0 example_world)) 0 =
     observed (initializeSelectedFish [1, 3] 0 example_world) 0"
  using remove_of_absent_id_is_noop [of 5 "initializeSelectedFish [1, 3] 0 example_world" 0]
  by (simp add: selected_initialize Set_add_def)

text \<open>
  C6, as the code has it.  Once a fish id has been added or removed (an add in any state,
  a remove of a selected id in any state, any remove in a state a dialog is used in), the
  total-value display shows the result of adding up, from 0 and in order, the numbers read
  from the \<open>data-value\<close> attributes of the items in the selected list; as long as these
  values and their running sums are safe integers, that is their sum.  In a state a dialog
  is used in, whose candidates were rendered from \<open>allFishData\<close> with unique fish ids, these
  values are the base values of the selected fish that are listed as candidates (rarity 1
  to 10), in the set's order; a selected id of a fish of another rarity, or of no fish,
  has no item and adds nothing.
\<close>

theorem total_value_is_sum_of_selected_values:
  assumes "w' = addFishToSelected fid c w \<or>
           (w' = removeFishFromSelected fid c w \<and> (fid \<in> set (selected w c) \<or> reachable c w))"
  shows "totalValue (doms w' c) = total_of (map data_value (selectedFishList (doms w' c))) \<and>
         (sums_safely (map data_value (selectedFishList (doms w' c))) \<longrightarrow>
            totalValue (doms w' c) = Exact (sum_list (map data_value (selectedFishList (doms w' c))))) \<and>
         (reachable c w \<and> rendered_from allFishData w c \<and> distinct (map fish_id allFishData) \<longrightarrow>
            map data_value (selectedFishList (doms w' c)) =
              listed_base_values allFishData (selected w' c) \<and>
            sum_list (map data_value (selectedFishList (doms w' c))) =
              sum_list (listed_base_values allFishData (selected w' c)))"
proof -
  have "stats_ok c w'"
    using assms
  proof (elim disjE conjE)
    assume "w' = addFishToSelected fid c w"
    then show ?thesis by (simp add: addFishToSelected_def)
  next
    assume "w' = removeFishFromSelected fid c w" "fid \<in> set (selected w c)"
    then show ?thesis by (simp add: stats_ok_def selected_remove doms_remove_present)
  next
    assume w': "w' = removeFishFromSelected fid c w" and "reachable c w"
    then have "consistent c w" by (simp add: reachable_consistent)
    then have "consistent c w'" unfolding w' by (rule consistent_remove)
    then show ?thesis by (simp add: consistent_def)
  qed
  then have total: "totalValue (doms w' c) = total_of (map data_value (selectedFishList (doms w' c)))"
    by (simp add: stats_ok_def)
  have listed_values: "map data_value (selectedFishList (doms w' c)) =
                listed_base_values allFishData (selected w' c)"
    if "reachable c w" "rendered_from allFishData w c" "distinct (map fish_id allFishData)"
  proof -
    from that(1) have "consistent c w" by (rule reachable_consistent)
    with assms have "consistent c w'"
      by (auto simp: consistent_add' consistent_remove)
    then have r: "rendered_ok c w'" by (simp add: consistent_def)
    from assms have "catalog w' c = catalog w c" by auto
    with that(2) have "rendered_from allFishData w' c" by (simp add: rendered_from_def)
    with r show ?thesis using that(3) by (rule rendered_from_values)
  qed
  from total listed_values show ?thesis by (simp add: total_of_safe)
qed

theorem total_value_is_sum_of_selected_values_witness:
  "reachable 0 (run [(0, Remove 2)] (initializeSelectedFish [1, 7, 2] 0 example_world)) \<and>
   rendered_from example_fish (run [(0, Remove 2)] (initializeSelectedFish [1, 7, 2] 0 example_world)) 0 \<and>
   distinct (map fish_id example_fish) \<and>
   selected (addFishToSelected 3 0 (run [(0, Remove 2)] (initializeSelectedFish [1, 7, 2] 0 example_world))) 0
     = [1, 7, 3] \<and>
   listed_base_values example_fish [1, 7, 3] = [30, 12] \<and>
   map data_value (selectedFishList
     (doms (addFishToSelected 3 0 (run [(0, Remove 2)] (initializeSelectedFish [1, 7, 2] 0 example_world))) 0))
     = [30, 12] \<and>
   sums_safely [30, 12] \<and>
   totalValue
     (doms (addFishToSelected 3 0 (run [(0, Remove 2)] (initializeSelectedFish [1, 7, 2] 0 example_world))) 0)
     = Exact 42"
proof -
  have re: "reachable 0 (run [(0, Remove 2)] (initializeSelectedFish [1, 7, 2] 0 example_world))"
    by (rule reachable_run) (rule reachable.initialized)
  have rf: "rendered_from example_fish (run [(0, Remove 2)] (initializeSelectedFish [1, 7, 2] 0 example_world)) 0"
    using rendered_from_example [of 0] by (simp add: rendered_from_def)
  have di: "distinct (map fish_id example_fish)"
    by (simp add: example_fish_def)
  have sel: "selected (addFishToSelected 3 0 (run [(0, Remove 2)] (initializeSelectedFish [1, 7, 2] 0 example_world))) 0
             = [1, 7, 3]"
    by (simp add: selected_add selected_remove selected_initialize Set_add_def)
  have lv: "listed_base_values example_fish [1, 7, 3] = [30, 12]"
    by (simp add: listed_base_values_def listed_base_value_def fish_with_id_def listed_def
        example_fish_def)
  have safe: "sums_safely [30, 12]"
    by (simp add: sums_safely_def safe_integer_def)
  note th = total_value_is_sum_of_selected_values [OF disjI1 [OF refl], of 3 0
      "run [(0, Remove 2)] (initializeSelectedFish [1, 7, 2] 0 example_world)" example_fish]
  from th re rf di have vals: "map data_value (selectedFishList
     (doms (addFishToSelected 3 0 (run [(0, Remove 2)] (initializeSelectedFish [1, 7, 2] 0 example_world))) 0))
     = [30, 12]"
    unfolding sel lv by simp
  from th have "totalValue
     (doms (addFishToSelected 3 0 (run [(0, Remove 2)] (initializeSelectedFish [1, 7, 2] 0 example_world))) 0)
     = total_of (map data_value (selectedFishList
     (doms (addFishToSelected 3 0 (run [(0, Remove 2)] (initializeSelectedFish [1, 7, 2] 0 example_world))) 0)))"
    by (rule conjunct1)
  then have "totalValue
     (doms (addFishToSelected 3 0 (run [(0, Remove 2)] (initializeSelectedFish [1, 7, 2] 0 example_world))) 0)
     = Exact 42"
    unfolding vals using total_of_safe [OF safe] by simp
  with re rf di sel lv vals safe show ?thesis by simp
qed

text \<open>
  C6, as stated, fails for a selected fish that is not listed.  In a dialog rendered from
  a catalogue that holds fish 1 of rarity 11 (base value 100) and fish 2 of rarity 1 (base
  value 5), initialized with fish 1, fish 2 is added: both ids are selected, only fish 2
  has an item, the display shows 5, and the base values of the selected fish ids sum to
  105.
\<close>

theorem total_leaves_out_unlisted_fish:
  "reachable 0 (run [(0, Initialize [1]), (0, Add 2)]
                  (show_bs_modal deep_fish 0 (page_loaded (\<lambda>c. renderForm [])))) \<and>
   selected (run [(0, Initialize [1]), (0, Add 2)]
               (show_bs_modal deep_fish 0 (page_loaded (\<lambda>c. renderForm [])))) 0 = [1, 2] \<and>
   map data_value (selectedFishList (doms (run [(0, Initialize [1]), (0, Add 2)]
               (show_bs_modal deep_fish 0 (page_loaded (\<lambda>c. renderForm [])))) 0)) = [5] \<and>
   totalValue (doms (run [(0, Initialize [1]), (0, Add 2)]
               (show_bs_modal deep_fish 0 (page_loaded (\<lambda>c. renderForm [])))) 0) = Exact 5 \<and>
   base_values_of_selected deep_fish [1, 2] = [100, 5] \<and>
   sum_list (base_values_of_selected deep_fish [1, 2]) = 105"
proof -
  let ?w0 = "show_bs_modal deep_fish 0 (page_loaded (\<lambda>c. renderForm []))"
  have tl: "totalFishList (renderForm deep_fish) =
            [\<lparr>fishId = 2, rarity = 1, data_value = 5, data_name = ''carp'',
              display_none = False, d_none = False, checked = False\<rparr>]"
    by (simp add: renderForm_def deep_fish_def total_item_def upt_1_11)
  have p0: "selected (page_loaded (\<lambda>c. renderForm [])) 0 = []"
    by (simp add: selected_alt page_loaded_def)
  have s0: "selected ?w0 0 = []"
    by (simp add: show_bs_modal_def setupFishSelection_def filterFishOptions_eq p0)
  have d0: "doms ?w0 0 = filtered [] (renderForm deep_fish)"
    by (simp add: show_bs_modal_def setupFishSelection_def filterFishOptions_eq p0)
  have re: "reachable 0 (run [(0, Initialize [1]), (0, Add 2)] ?w0)"
    by (rule reachable_run) (rule reachable.first_shown, simp add: page_loaded_def)
  have sel: "selected (run [(0, Initialize [1]), (0, Add 2)] ?w0) 0 = [1, 2]"
    by (simp add: selected_add selected_initialize Set_add_def)
  have vals: "map data_value (selectedFishList (doms (run [(0, Initialize [1]), (0, Add 2)] ?w0) 0)) = [5]"
    and tot: "totalValue (doms (run [(0, Initialize [1]), (0, Add 2)] ?w0) 0) = Exact 5"
    by (simp_all add: addFishToSelected_def initializeSelectedFish_def split_beta Let_def
        doms_filter doms_stats doms_internal selected_internal selected_foldl_internal
        Set_add_def d0 s0 filtered_def with_stats_def tl new_selected_item_def
        total_of_def add_parsed_def safe_integer_def)
  have bv: "base_values_of_selected deep_fish [1, 2] = [100, 5]"
    by (simp add: base_values_of_selected_def fish_with_id_def deep_fish_def)
  from re sel vals tot bv show ?thesis by simp
qed

text \<open>
  C7, as the code has it.  For a rarity that has a header checkbox, after each update of
  that header (\<open>updateRarityCheckboxState\<close>, reached from a row click or from a click on the
  header itself, and the reset in \<open>initializeSelectedFish\<close>): the header is checked exactly
  when there is at least one visible candidate of that rarity and every visible one is
  checked; it is indeterminate exactly when some visible candidate of that rarity is
  checked and some is not.  With no visible candidate the header is neither.
\<close>

theorem rarity_header_is_tristate:
  assumes "rarity_select_all (doms w c) r \<noteq> None"
  shows "header_reflects r (doms (updateRarityCheckboxState (Some lr) (Some r) c w) c) \<and>
         header_reflects r (doms (rarity_select_all_change r c w) c) \<and>
         (i < length (list_of lr' (doms w c)) \<and> rarity (list_of lr' (doms w c) ! i) = r \<longrightarrow>
            header_reflects r (doms (toggleFishSelection lr' i c b w) c)) \<and>
         header_reflects r (doms (initializeSelectedFish ids c w) c)"
  using assms header_reflects_update [of w c r lr] header_reflects_change [of w c r]
    header_reflects_toggle [of i lr' w c b] header_reflects_initialize [of w c r ids]
  by auto

theorem rarity_header_is_tristate_witness:
  "rarity_select_all (doms example_world 0) 2 \<noteq> None \<and>
   header_reflects 2 (doms (toggleFishSelection TotalFishList 1 0 False example_world) 0) \<and>
   rarity_select_all (doms (toggleFishSelection TotalFishList 1 0 False example_world) 0) 2 =
     Some \<lparr>rc_checked = False, indeterminate = True\<rparr> \<and>
   header_reflects 2 (doms (rarity_select_all_change 2 0 example_world) 0) \<and>
   rarity_select_all (doms (rarity_select_all_change 2 0 example_world) 0) 2 =
     Some \<lparr>rc_checked = True, indeterminate = False\<rparr>"
proof -
  have h: "rarity_select_all (doms example_world 0) 2 \<noteq> None"
    by (simp add: example_dom_def)
  have r: "(1::nat) < length (list_of TotalFishList (doms example_world 0)) \<and>
           rarity (list_of TotalFishList (doms example_world 0) ! 1) = 2"
    by (simp add: example_dom_def list_of_def)
  have t: "rarity_select_all (doms (toggleFishSelection TotalFishList 1 0 False example_world) 0) 2 =
     Some \<lparr>rc_checked = False, indeterminate = True\<rparr>"
    by (simp add: eval_ops)
  have c: "rarity_select_all (doms (rarity_select_all_change 2 0 example_world) 0) 2 =
     Some \<lparr>rc_checked = True, indeterminate = False\<rparr>"
    by (simp add: eval_ops)
  from rarity_header_is_tristate [OF h, of TotalFishList 1 TotalFishList False "[]"] r h t c
  show ?thesis by simp
qed

text \<open>
  C7, as stated, fails when no candidate of the rarity is visible.  Fish 2 is the only
  candidate of rarity 1; once it is selected the filter hides it, and a click on its row
  in the selected list recomputes the header of rarity 1: every visible candidate of
  rarity 1 is checked (there is none), and the header is not checked.
\<close>

theorem header_unchecked_with_no_visible_item:
  "visible_of_rarity 1
     (doms (toggleFishSelection SelectedFishList 0 0 False (initializeSelectedFish [2] 0 example_world)) 0) = [] \<and>
   list_all checked (visible_of_rarity 1
     (doms (toggleFishSelection SelectedFishList 0 0 False (initializeSelectedFish [2] 0 example_world)) 0)) \<and>
   rarity_select_all
     (doms (toggleFishSelection SelectedFishList 0 0 False (initializeSelectedFish [2] 0 example_world)) 0) 1 =
     Some \<lparr>rc_checked = False, indeterminate = False\<rparr>"
  by (simp add: eval_ops)

text \<open>
  C8.  Selection state is keyed per container: an add, remove, clear or initialize on one
  container, any other event on it, and any run of events none of which is on container
  \<open>c'\<close>, leave the selected set of \<open>c'\<close> (and its entry in the WeakMap) as it was.
\<close>

theorem selection_state_is_per_container:
  assumes "c' \<noteq> c"
  shows "selected (addFishToSelected fid c w) c' = selected w c' \<and>
         selected (removeFishFromSelected fid c w) c' = selected w c' \<and>
         selected (clearAllSelected c w) c' = selected w c' \<and>
         selected (initializeSelectedFish ids c w) c' = selected w c' \<and>
         containerToSelectedIds (step c e w) c' = containerToSelectedIds w c' \<and>
         ((\<forall>ce\<in>set es. fst ce \<noteq> c') \<longrightarrow> selected (run es w) c' = selected w c')"
  using assms frame_add [of c' c fid w] frame_remove [of c' c fid w] frame_clear [of c' c w]
    frame_initialize [of c' c ids w] frame_step [of c' c e w] frame_run [of es c' w]
  by (simp add: selected_alt)

theorem selection_state_is_per_container_witness:
  "(1::nat) \<noteq> 0 \<and>
   selected (initializeSelectedFish [3] 1 example_world) 1 = [3] \<and>
   selected (addFishToSelected 2 0 (initializeSelectedFish [3] 1 example_world)) 1 = [3] \<and>
   selected (addFishToSelected 2 0 (initializeSelectedFish [3] 1 example_world)) 0 = [2] \<and>
   selected (run [(0, Add 2), (0, Initialize [1, 2]), (0, ClearAll)]
               (initializeSelectedFish [3] 1 example_world)) 1 = [3]"
proof -
  have ne: "(1::nat) \<noteq> 0" by simp
  have s1: "selected (initializeSelectedFish [3] 1 example_world) 1 = [3]"
    by (simp add: selected_initialize Set_add_def)
  have s0: "selected (initializeSelectedFish [3] 1 example_world) 0 = []"
    using frame_initialize [of 0 1 "[3]" example_world] selected_frame [of _ 0 example_world]
    by simp
  have s2: "selected (addFishToSelected 2 0 (initializeSelectedFish [3] 1 example_world)) 0 = [2]"
    using s0 by (simp add: selected_add Set_add_def)
  from selection_state_is_per_container [OF ne, of 2 "initializeSelectedFish [3] 1 example_world" "[]"
      Keyup "[(0, Add 2), (0, Initialize [1, 2]), (0, ClearAll)]"]
  show ?thesis using s1 s2 by simp
qed

text \<open>
  C9, as the code has it.  After the filter has run, each candidate item is shown exactly
  when its lowercased name contains the lowercased search term (or the term is empty),
  its rarity is the chosen filter value (or none is chosen) and its fish id is not in the
  container's selected set; nothing else of the items changes; and the displayed candidate
  count is the number of items shown.
\<close>

theorem filter_shows_matching_unselected_candidates:
  assumes "w' = filterFishOptions c w"
  shows "totalFishList (doms w' c) =
           map (\<lambda>it. it\<lparr>display_none := \<not> shown_by_filter w c it\<rparr>) (totalFishList (doms w c)) \<and>
         (\<forall>it\<in>set (totalFishList (doms w' c)). \<not> display_none it \<longleftrightarrow> shown_by_filter w c it) \<and>
         totalFishCount (doms w' c) =
           length (filter (\<lambda>it. \<not> display_none it) (totalFishList (doms w' c))) \<and>
         selected w' c = selected w c"
proof -
  have tl: "totalFishList (doms w' c) =
      map (\<lambda>it. it\<lparr>display_none := \<not> shown_by_filter w c it\<rparr>) (totalFishList (doms w c))"
    unfolding assms by (simp add: doms_filter filtered_def isVisible_shown_by_filter)
  have cnt: "totalFishCount (doms w' c) = length (filter (shown_by_filter w c) (totalFishList (doms w c)))"
    unfolding assms by (simp add: doms_filter filtered_def isVisible_shown_by_filter [abs_def])
  have "length (filter (\<lambda>it. \<not> display_none it) (totalFishList (doms w' c))) =
        length (filter (shown_by_filter w c) (totalFishList (doms w c)))"
    unfolding tl by (simp add: filter_map comp_def)
  with tl cnt show ?thesis
    unfolding assms by auto
qed

theorem filter_shows_matching_unselected_candidates_witness:
  "map display_none (totalFishList (doms (filterFishOptions 0 searching_world) 0)) = [True, False, True] \<and>
   map data_name (totalFishList (doms (filterFishOptions 0 searching_world) 0)) = [''carp'', ''Salmon'', ''Eel''] \<and>
   totalFishCount (doms (filterFishOptions 0 searching_world) 0) = 1"
proof -
  note th = filter_shows_matching_unselected_candidates [OF refl, of 0 searching_world]
  have tl: "totalFishList (doms (filterFishOptions 0 searching_world) 0) =
           map (\<lambda>it. it\<lparr>display_none := \<not> shown_by_filter searching_world 0 it\<rparr>)
             (totalFishList (doms searching_world 0))"
    using th by simp
  have cnt: "totalFishCount (doms (filterFishOptions 0 searching_world) 0) =
           length (filter (\<lambda>it. \<not> display_none it) (totalFishList (doms (filterFishOptions 0 searching_world) 0)))"
    using th by simp
  show ?thesis
    unfolding cnt unfolding tl
    by (simp add: shown_by_filter_def example_dom_def eval_strings)
qed

text \<open>
  C9, as stated, fails on a name with a capital letter: with \<open>sal\<close> in the search box the
  item named \<open>Salmon\<close> is shown, and its name does not contain the lowercased term (its
  lowercased name does).
\<close>

theorem filter_matches_lowercased_name:
  "fishSearch (doms searching_world 0) = ''sal'' \<and>
   toLowerCase ''sal'' = ''sal'' \<and>
   data_name (totalFishList (doms (filterFishOptions 0 searching_world) 0) ! 1) = ''Salmon'' \<and>
   \<not> display_none (totalFishList (doms (filterFishOptions 0 searching_world) 0) ! 1) \<and>
   \<not> String_includes ''Salmon'' ''sal'' \<and>
   String_includes (toLowerCase ''Salmon'') ''sal''"
  by (simp add: doms_filter filtered_def isVisible_def Set_has_def example_dom_def eval_strings)

text \<open>
  C10.  After \<open>initializeSelectedFish\<close> the container's set is the list of the given ids with
  repetitions dropped (each id at its first occurrence), the hidden input is its
  comma-joined serialization and reads back as exactly that list, and the selected list
  renders those ids that have a candidate item.  An id without a candidate item is
  therefore in the set and in the serialization, and has no node in the selected list.
\<close>

theorem initialize_keeps_every_id:
  assumes "w' = initializeSelectedFish ids c w"
  shows "selected w' c = rev (remdups (rev ids)) \<and>
         set (selected w' c) = set ids \<and>
         distinct (selected w' c) \<and>
         specific_fish_ids_input (doms w' c) = join '','' (map js_toString (selected w' c)) \<and>
         ids_of_serialization (specific_fish_ids_input (doms w' c)) = selected w' c \<and>
         rendered_ids w' c = filter (has_candidate w' c) (selected w' c) \<and>
         candidate_ids w' c = candidate_ids w c \<and>
         (fid \<in> set ids \<and> \<not> has_candidate w c fid \<longrightarrow>
            fid \<in> set (selected w' c) \<and>
            fid \<in> set (ids_of_serialization (specific_fish_ids_input (doms w' c))) \<and>
            fid \<notin> set (rendered_ids w' c))"
proof -
  have cons: "consistent c w'"
    unfolding assms by (rule consistent_initialize)
  have sel: "selected w' c = rev (remdups (rev ids))"
    unfolding assms by (simp add: selected_initialize foldl_Set_add_first_occurrences)
  have inp: "specific_fish_ids_input (doms w' c) = join '','' (map js_toString (selected w' c))"
    using cons by (simp add: consistent_def stats_ok_def)
  have ren: "rendered_ids w' c = filter (has_candidate w' c) (selected w' c)"
    using cons by (simp add: consistent_def rendered_ok_ids)
  have cat: "candidate_ids w' c = candidate_ids w c"
    unfolding assms by (simp add: candidate_ids_catalog)
  then have has: "has_candidate w' c = has_candidate w c"
    by (simp add: has_candidate_def fun_eq_iff)
  show ?thesis
    using sel cat by (simp add: inp ren has)
qed

theorem initialize_keeps_every_id_witness:
  "selected (initializeSelectedFish [1, 7, 1] 0 example_world) 0 = [1, 7] \<and>
   specific_fish_ids_input (doms (initializeSelectedFish [1, 7, 1] 0 example_world) 0) = ''1,7'' \<and>
   rendered_ids (initializeSelectedFish [1, 7, 1] 0 example_world) 0 = [1] \<and>
   7 \<in> set [1, 7, 1 :: int] \<and>
   \<not> has_candidate example_world 0 7 \<and>
   ids_of_serialization
     (specific_fish_ids_input (doms (initializeSelectedFish [1, 7, 1] 0 example_world) 0)) = [1, 7]"
proof -
  have no: "\<not> has_candidate example_world 0 7" and yes: "has_candidate example_world 0 1"
    by (simp_all add: has_candidate_catalog)
  have has: "has_candidate (initializeSelectedFish [1, 7, 1] 0 example_world) 0 = has_candidate example_world 0"
    by (simp add: has_candidate_catalog fun_eq_iff)
  have sel: "rev (remdups (rev [1, 7, 1 :: int])) = [1, 7]"
    by simp
  note th = initialize_keeps_every_id [OF refl, of "[1, 7, 1]" 0 example_world 7, unfolded has sel]
  from th have s: "selected (initializeSelectedFish [1, 7, 1] 0 example_world) 0 = [1, 7]"
    by (rule conjunct1)
  from th no yes show ?thesis
    unfolding s by (clarsimp simp: eval_strings)
qed

end
